theory Spec2Isabelle
  imports Complex_Main
begin

section \<open>Data model\<close>

text \<open>
  The simulator computes with Python floats. They are modelled as \<^typ>\<open>real\<close>:
  every arithmetic identity below is exact arithmetic, rounding is not modelled.
  Python's unbounded integers (years, month indices) are \<^typ>\<open>int\<close>.
\<close>

text \<open>\<^verbatim>\<open>monte_carlo.PortfolioETF\<close>\<close>

record PortfolioETF =
  isin :: string
  allocation :: real
  annual_return :: real
  annual_volatility :: real

text \<open>\<^verbatim>\<open>monte_carlo.RentalProperty\<close>\<close>

record RentalProperty =
  "include" :: bool
  sell :: bool
  sale_year :: int
  mortgage_2026 :: real
  monthly_payment :: real
  monthly_income :: real
  interest_rate :: real
  mart_share :: real
  kerli_share :: real

text \<open>\<^verbatim>\<open>monte_carlo.Contribution\<close>\<close>

record Contribution =
  name :: string
  monthly_amount :: real

section \<open>Portfolio validation (\<^verbatim>\<open>etf_fetcher.validate_portfolio\<close>)\<close>

text \<open>
  \<^verbatim>\<open>str.strip()\<close> removes leading and trailing whitespace. A character of an
  identifier is a code point below 256; among these the ones with \<^verbatim>\<open>str.isspace()\<close>
  are the codes 9 to 13, 28 to 32, 133 (next line) and 160 (no-break space).
\<close>

definition py_isspace :: "char \<Rightarrow> bool" where
  "py_isspace c =
     (let n = (of_char c :: nat)
      in (9 \<le> n \<and> n \<le> 13) \<or> (28 \<le> n \<and> n \<le> 32) \<or> n = 133 \<or> n = 160)"

definition strip :: "string \<Rightarrow> string" where
  "strip s = rev (dropWhile py_isspace (rev (dropWhile py_isspace s)))"

text \<open>
  The function returns \<^verbatim>\<open>(is_valid, error_message)\<close>. The three messages are
  kept apart by a datatype that carries the values the f-strings interpolate;
  \<open>NoMessage\<close> is the empty string of the success case.
\<close>

datatype message =
    NoMessage
  | AtLeastOneETF
  | MustSumTo100 real
  | InvalidAllocation string real

text \<open>The list comprehension that drops entries whose identifier is empty or blank.\<close>

definition nonblank_entries :: "(string \<times> real) list \<Rightarrow> (string \<times> real) list" where
  "nonblank_entries etfs = filter (\<lambda>(i, pct). i \<noteq> [] \<and> strip i \<noteq> []) etfs"

text \<open>
  The percentages are finite doubles, and a finite double is a real number (\<^verbatim>\<open>nan\<close> and
  the infinities have no counterpart here). The comparisons of the
  function are exact on doubles, and so is the subtraction of 100 wherever the result
  is near the tolerance; the one operation that rounds is the built-in \<^verbatim>\<open>sum\<close>, which
  adds left to right and rounds after every addition (\<^verbatim>\<open>sum([33.3, 33.3, 33.3])\<close> is
  99.89999999999999, not 99.9). Rounding is not modelled, so the floating-point sum is
  the parameter \<open>float_sum\<close> of the function. On one number, and on whole numbers
  such as 60 and 40, it is the exact sum.
\<close>

definition validate_portfolio ::
  "(real list \<Rightarrow> real) \<Rightarrow> (string \<times> real) list \<Rightarrow> bool \<times> message" where
  "validate_portfolio float_sum etfs0 =
     (let etfs = nonblank_entries etfs0 in
      if etfs = [] then (False, AtLeastOneETF)
      else
        let total_allocation = float_sum (map snd etfs) in
        if \<bar>total_allocation - 100\<bar> > 0.1 then (False, MustSumTo100 total_allocation)
        else
          (case find (\<lambda>(i, pct). pct < 0 \<or> pct > 100) etfs of
             Some (i, pct) \<Rightarrow> (False, InvalidAllocation i pct)
           | None \<Rightarrow> (True, NoMessage)))"

text \<open>
  \<^verbatim>\<open>app.run_simulation\<close>, lines 123 to 125: the request handler validates the
  list of (identifier, percent) pairs and returns the error response at once when
  it is invalid. Everything after the check (fetching market data, building the
  portfolio, simulating) is the continuation \<open>proceed\<close>.
\<close>

definition run_simulation_validated ::
  "(real list \<Rightarrow> real) \<Rightarrow> (string \<times> real) list \<Rightarrow> ((string \<times> real) list \<Rightarrow> 'r)
     \<Rightarrow> message + 'r" where
  "run_simulation_validated float_sum etf_list proceed =
     (let (is_valid, error_msg) = validate_portfolio float_sum etf_list in
      if \<not> is_valid then Inl error_msg else Inr (proceed etf_list))"

text \<open>
  \<^verbatim>\<open>app.run_simulation\<close>, line 137: the allocation weight of an instrument is its
  percentage divided by 100.
\<close>

definition allocation_weights :: "(string \<times> real) list \<Rightarrow> real list" where
  "allocation_weights etf_list = map (\<lambda>(i, pct). pct / 100) etf_list"

section \<open>The stochastic path engine (\<^verbatim>\<open>monte_carlo.MonteCarloSimulator\<close>)\<close>

text \<open>
  numpy's process-wide random generator is an explicit state of type \<open>'g\<close>.
  The two library calls the engine makes are parameters of the model:
  \<open>reseed\<close> is \<^verbatim>\<open>np.random.seed\<close> (\<open>None\<close> when numpy rejects the seed with
  a \<^verbatim>\<open>ValueError\<close>), and a sampler is \<^verbatim>\<open>np.random.normal(loc, scale)\<close>, which
  returns the draw and the advanced generator state.
\<close>

type_synonym 'g sampler = "'g \<Rightarrow> real \<Rightarrow> real \<Rightarrow> real \<times> 'g"

text \<open>
  The attributes of a \<^verbatim>\<open>MonteCarloSimulator\<close> instance. The number of paths is a
  natural number: numpy allocates no matrix with a negative dimension.
\<close>

record Simulator =
  portfolio :: "PortfolioETF list"
  contributions :: "Contribution list"
  rental :: "RentalProperty option"
  n_simulations :: nat
  portfolio_return :: real
  portfolio_volatility :: real

definition calculate_portfolio_return :: "PortfolioETF list \<Rightarrow> real" where
  "calculate_portfolio_return pf = sum_list (map (\<lambda>etf. allocation etf * annual_return etf) pf)"

definition calculate_portfolio_volatility :: "PortfolioETF list \<Rightarrow> real" where
  "calculate_portfolio_volatility pf =
     sqrt (sum_list (map (\<lambda>etf. (allocation etf)\<^sup>2 * (annual_volatility etf)\<^sup>2) pf))"

text \<open>
  \<^verbatim>\<open>__init__\<close>: stores its arguments, reseeds the global generator when a seed is
  given, and computes the two portfolio statistics. It validates nothing.
\<close>

definition MonteCarloSimulator_init ::
  "(int \<Rightarrow> 'g option) \<Rightarrow> PortfolioETF list \<Rightarrow> Contribution list \<Rightarrow> RentalProperty option
     \<Rightarrow> nat \<Rightarrow> int option \<Rightarrow> 'g \<Rightarrow> (Simulator \<times> 'g) option" where
  "MonteCarloSimulator_init reseed pf cs rent n seed g =
     (let self = \<lparr>portfolio = pf, contributions = cs, rental = rent, n_simulations = n,
                  portfolio_return = calculate_portfolio_return pf,
                  portfolio_volatility = calculate_portfolio_volatility pf\<rparr>
      in case seed of
           None \<Rightarrow> Some (self, g)
         | Some s \<Rightarrow> (case reseed s of None \<Rightarrow> None | Some g' \<Rightarrow> Some (self, g')))"

text \<open>\<^verbatim>\<open>_calculate_mortgage_balance\<close>: the amortisation helper. Nothing calls it.\<close>

fun amortize :: "RentalProperty \<Rightarrow> nat \<Rightarrow> real \<Rightarrow> real" where
  "amortize r 0 balance = balance"
| "amortize r (Suc k) balance =
     (if balance \<le> 0 then balance
      else
        let interest = balance * (interest_rate r / 12);
            principal = monthly_payment r - interest
        in amortize r k (max 0 (balance - principal)))"

definition calculate_mortgage_balance :: "Simulator \<Rightarrow> int \<Rightarrow> real" where
  "calculate_mortgage_balance self year =
     (case rental self of
        None \<Rightarrow> 0
      | Some r \<Rightarrow>
          if \<not> include r then 0
          else amortize r (nat ((year - 2026) * 12)) (mortgage_2026 r))"

text \<open>The keyword arguments of \<^verbatim>\<open>simulate\<close>.\<close>

record sim_args =
  start_year :: int
  start_month :: int
  end_year :: int
  starting_capital :: real
  starting_loans :: "(string \<times> real) list option"
  annual_costs :: real
  withdrawal_rate :: real
  withdrawal_start_year :: int
  withdrawal_mode :: string
  contribution_end_year :: "int option"
  contribution_change_year :: "int option"
  contribution_change_factor :: real

definition monthly_vol :: "Simulator \<Rightarrow> real" where
  "monthly_vol self = portfolio_volatility self / sqrt 12"

definition monthly_return :: "Simulator \<Rightarrow> real" where
  "monthly_return self = portfolio_return self / 12"

text \<open>Lines 209 to 218: the month's contribution under the stop and scale policy.\<close>

definition current_monthly_contrib :: "Simulator \<Rightarrow> sim_args \<Rightarrow> int \<Rightarrow> real" where
  "current_monthly_contrib self a year =
     (let total = sum_list (map monthly_amount (contributions self)) in
      if (case contribution_end_year a of None \<Rightarrow> False | Some e \<Rightarrow> year \<ge> e) then 0
      else if (case contribution_change_year a of None \<Rightarrow> False | Some c \<Rightarrow> year \<ge> c)
        then total * contribution_change_factor a
      else total)"

text \<open>Lines 199 to 202: the year's withdrawal budget, from the balance the year starts with.\<close>

definition year_withdrawal_budget :: "sim_args \<Rightarrow> int \<Rightarrow> real \<Rightarrow> real" where
  "year_withdrawal_budget a year balance =
     (if year \<ge> withdrawal_start_year a \<and> withdrawal_rate a > 0
      then balance * withdrawal_rate a else 0)"

text \<open>
  Lines 208 to 246: the cash flows of one month, before the month's return is applied.
  The state is the pair of the balance and the gross payout accumulated in the year.
\<close>

definition month_flows ::
  "Simulator \<Rightarrow> sim_args \<Rightarrow> int \<Rightarrow> real \<Rightarrow> int \<Rightarrow> real \<times> real \<Rightarrow> real \<times> real" where
  "month_flows self a year budget month = (\<lambda>(balance0, payout0).
     let balance1 = balance0 + current_monthly_contrib self a year;
         balance2 = balance1 - annual_costs a / 12;
         (balance3, payout3) =
           (if budget > 0 then (balance2 - budget / 12, payout0 + budget / 12)
            else (balance2, payout0));
         balance4 =
           (case rental self of
              None \<Rightarrow> balance3
            | Some r \<Rightarrow>
                if include r \<and> sell r then
                  (if year > sale_year r then balance3 + monthly_income r
                   else if year = sale_year r \<and> month \<ge> 6 then balance3 + monthly_income r
                   else balance3)
                else balance3);
         balance5 =
           (case rental self of
              None \<Rightarrow> balance4
            | Some r \<Rightarrow>
                if include r \<and> sell r then
                  (if year = sale_year r \<and> month = 6
                   then balance4 - (mart_share r + kerli_share r) else balance4)
                else balance4)
     in (balance5, payout3))"

text \<open>Lines 207 to 250: the months of one year; each month ends with one draw.\<close>

fun month_loop ::
  "'g sampler \<Rightarrow> Simulator \<Rightarrow> sim_args \<Rightarrow> int \<Rightarrow> real \<Rightarrow> int list
     \<Rightarrow> real \<times> real \<times> 'g \<Rightarrow> real \<times> real \<times> 'g" where
  "month_loop normal self a year budget [] st = st"
| "month_loop normal self a year budget (month # ms) (balance, payout, g) =
     (let (balance', payout') = month_flows self a year budget month (balance, payout);
          (random_return, g') = normal g (monthly_return self) (monthly_vol self)
      in month_loop normal self a year budget ms (balance' * (1 + random_return), payout', g'))"

text \<open>
  Lines 193 to 262: one year of one path. The result is the year's ending balance, the
  payout stored for the year and the generator state.
\<close>

definition simulate_year ::
  "'g sampler \<Rightarrow> Simulator \<Rightarrow> sim_args \<Rightarrow> int \<Rightarrow> real \<times> 'g \<Rightarrow> real \<times> real \<times> 'g" where
  "simulate_year normal self a year = (\<lambda>(balance, g).
     let first_month = (if year = start_year a then start_month a - 1 else 0);
         budget = year_withdrawal_budget a year balance;
         (balance', year_payout_gross, g') =
           month_loop normal self a year budget [first_month..11] (balance, 0, g);
         stored = (if withdrawal_mode a = ''dividend'' then year_payout_gross * 0.78
                   else year_payout_gross)
     in (balance', stored, g'))"

fun simulate_years ::
  "'g sampler \<Rightarrow> Simulator \<Rightarrow> sim_args \<Rightarrow> int list \<Rightarrow> real \<times> 'g
     \<Rightarrow> (real list \<times> real list) \<times> 'g" where
  "simulate_years normal self a [] (balance, g) = (([], []), g)"
| "simulate_years normal self a (year # ys) (balance, g) =
     (let (balance', stored, g') = simulate_year normal self a year (balance, g);
          ((row, payout_row), g'') = simulate_years normal self a ys (balance', g')
      in ((balance' # row, stored # payout_row), g''))"

text \<open>Lines 189 to 262: the paths, one after the other, on the one generator.\<close>

fun simulate_paths ::
  "'g sampler \<Rightarrow> Simulator \<Rightarrow> sim_args \<Rightarrow> nat \<Rightarrow> 'g
     \<Rightarrow> (real list list \<times> real list list) \<times> 'g" where
  "simulate_paths normal self a 0 g = (([], []), g)"
| "simulate_paths normal self a (Suc n) g =
     (let ((row, payout_row), g') =
            simulate_years normal self a [start_year a..end_year a] (starting_capital a, g);
          ((paths, payouts_paths), g'') = simulate_paths normal self a n g'
      in ((row # paths, payout_row # payouts_paths), g''))"

definition simulate_matrices ::
  "'g sampler \<Rightarrow> Simulator \<Rightarrow> sim_args \<Rightarrow> 'g \<Rightarrow> (real list list \<times> real list list) \<times> 'g" where
  "simulate_matrices normal self a g = simulate_paths normal self a (n_simulations self) g"

subsection \<open>The rental cash flows as the specification states them\<close>

text \<open>
  The index of the first month that is simulated in a year (line 197).
\<close>

definition first_month :: "sim_args \<Rightarrow> int \<Rightarrow> int" where
  "first_month a year = (if year = start_year a then start_month a - 1 else 0)"

text \<open>
  The next two definitions follow the words of the specification, not the code, and
  are compared with the code below: the rental income of a month is credited when the year
  is strictly after the sale year, or is the sale year and the 0-based month index is at
  least 6; the sum of the two mortgage shares is deducted in the month with index 6 of
  the sale year.
\<close>

definition claimed_rental_income :: "RentalProperty \<Rightarrow> int \<Rightarrow> int \<Rightarrow> real" where
  "claimed_rental_income r year month =
     (if year > sale_year r \<or> (year = sale_year r \<and> month \<ge> 6) then monthly_income r else 0)"

definition claimed_mortgage_deduction :: "RentalProperty \<Rightarrow> int \<Rightarrow> int \<Rightarrow> real" where
  "claimed_mortgage_deduction r year month =
     (if year = sale_year r \<and> month = 6 then mart_share r + kerli_share r else 0)"

text \<open>
  What a stream of monthly cash flows is worth at the end of the months \<open>ms\<close>: every
  month its flow is added and then the month's return, drawn from the generator as the
  engine draws it, is applied.
\<close>

fun compounded_flows ::
  "'g sampler \<Rightarrow> Simulator \<Rightarrow> (int \<Rightarrow> real) \<Rightarrow> int list \<Rightarrow> real \<times> 'g \<Rightarrow> real" where
  "compounded_flows normal self flow [] (d, g) = d"
| "compounded_flows normal self flow (month # ms) (d, g) =
     (let (random_return, g') = normal g (monthly_return self) (monthly_vol self)
      in compounded_flows normal self flow ms ((d + flow month) * (1 + random_return), g'))"

section \<open>The percentile aggregator\<close>

text \<open>
  Modelled from the spec: \<^verbatim>\<open>numpy.percentile\<close> and \<^verbatim>\<open>numpy.mean\<close> are library
  functions, not code of the repository. The spec says that percentiles use linear
  interpolation between order statistics, which is numpy's default method: on the sorted
  sample of size \<open>n\<close> the \<open>q\<close>-th percentile sits at the virtual index
  \<open>(n - 1) * q / 100\<close> and is interpolated between the two neighbouring order
  statistics. On an empty sample numpy gives no number (\<^verbatim>\<open>nan\<close>), which is \<open>None\<close>
  here.
\<close>

definition percentile :: "real list \<Rightarrow> real \<Rightarrow> real option" where
  "percentile xs q =
     (if xs = [] then None
      else
        let s = sort xs;
            n = length xs;
            h = real (n - 1) * q / 100;
            lo = nat \<lfloor>h\<rfloor>;
            hi = min (lo + 1) (n - 1)
        in Some (s ! lo + (s ! hi - s ! lo) * (h - real lo)))"

text \<open>
  The comparison \<^verbatim>\<open><=\<close> of two floats: it is false when either side is not a number.
\<close>

fun float_le :: "real option \<Rightarrow> real option \<Rightarrow> bool" where
  "float_le (Some x) (Some y) = (x \<le> y)"
| "float_le _ _ = False"

text \<open>
  The interpolation step of \<open>percentile\<close> on its own, as a function of the sorted
  sample and the virtual index; the proofs go through it.
\<close>

definition lerp_at :: "real list \<Rightarrow> real \<Rightarrow> real" where
  "lerp_at s h = s ! nat \<lfloor>h\<rfloor>
      + (s ! min (nat \<lfloor>h\<rfloor> + 1) (length s - 1) - s ! nat \<lfloor>h\<rfloor>) * (h - real (nat \<lfloor>h\<rfloor>))"

definition mean_of :: "real list \<Rightarrow> real option" where
  "mean_of xs = (if xs = [] then None else Some (sum_list xs / real (length xs)))"

text \<open>
  \<^verbatim>\<open>SimulationResult\<close>. The dictionary \<^verbatim>\<open>percentiles\<close> has the keys \<^verbatim>\<open>'p0'\<close> to
  \<^verbatim>\<open>'p100'\<close>; the key \<^verbatim>\<open>f'p{i}'\<close> is represented by the number \<open>i\<close>.
\<close>

record SimulationResult =
  years :: "int list"
  p2 :: "real option list"
  p10 :: "real option list"
  p50 :: "real option list"
  p90 :: "real option list"
  p98 :: "real option list"
  mean :: "real option list"
  percentiles :: "(nat \<times> real option list) list"
  payouts_p50 :: "real option list"
  all_paths :: "real list list"

text \<open>Column \<open>j\<close> of a matrix stored as a list of rows: what \<^verbatim>\<open>axis=0\<close> reduces over.\<close>

definition column :: "real list list \<Rightarrow> nat \<Rightarrow> real list" where
  "column m j = map (\<lambda>row. row ! j) m"

definition percentile_axis0 :: "real list list \<Rightarrow> nat \<Rightarrow> real \<Rightarrow> real option list" where
  "percentile_axis0 m n_years q = map (\<lambda>j. percentile (column m j) q) [0..<n_years]"

text \<open>Lines 264 to 293: the reduction of the two matrices to the result.\<close>

definition aggregate ::
  "int list \<Rightarrow> real list list \<Rightarrow> real list list \<Rightarrow> SimulationResult" where
  "aggregate ys paths payouts_paths =
     (let n_years = length ys in
      \<lparr>years = ys,
       p2 = percentile_axis0 paths n_years 2,
       p10 = percentile_axis0 paths n_years 10,
       p50 = percentile_axis0 paths n_years 50,
       p90 = percentile_axis0 paths n_years 90,
       p98 = percentile_axis0 paths n_years 98,
       mean = map (\<lambda>j. mean_of (column paths j)) [0..<n_years],
       percentiles = map (\<lambda>i. (i, percentile_axis0 paths n_years (real i))) [0..<101],
       payouts_p50 = percentile_axis0 payouts_paths n_years 50,
       all_paths = paths\<rparr>)"

text \<open>\<^verbatim>\<open>simulate\<close>: the result and the generator state it leaves behind.\<close>

definition simulate ::
  "'g sampler \<Rightarrow> Simulator \<Rightarrow> sim_args \<Rightarrow> 'g \<Rightarrow> SimulationResult \<times> 'g" where
  "simulate normal self a g =
     (let ((paths, payouts_paths), g') = simulate_matrices normal self a g
      in (aggregate [start_year a..end_year a] paths payouts_paths, g'))"

text \<open>
  One run of the engine, as the module's \<^verbatim>\<open>__main__\<close> block and
  \<^verbatim>\<open>app.run_simulation\<close> make it: construct the simulator, then call \<^verbatim>\<open>simulate\<close>
  once. \<open>run_matrices\<close> is the same run, stopped before the aggregation, so that the
  withdrawal matrix is visible.
\<close>

definition run_matrices ::
  "'g sampler \<Rightarrow> (int \<Rightarrow> 'g option) \<Rightarrow> PortfolioETF list \<Rightarrow> Contribution list
     \<Rightarrow> RentalProperty option \<Rightarrow> nat \<Rightarrow> int option \<Rightarrow> sim_args \<Rightarrow> 'g
     \<Rightarrow> (real list list \<times> real list list) option" where
  "run_matrices normal reseed pf cs rent n seed a g =
     (case MonteCarloSimulator_init reseed pf cs rent n seed g of
        None \<Rightarrow> None
      | Some (simulator, g') \<Rightarrow> Some (fst (simulate_matrices normal simulator a g')))"

definition run_engine ::
  "'g sampler \<Rightarrow> (int \<Rightarrow> 'g option) \<Rightarrow> PortfolioETF list \<Rightarrow> Contribution list
     \<Rightarrow> RentalProperty option \<Rightarrow> nat \<Rightarrow> int option \<Rightarrow> sim_args \<Rightarrow> 'g
     \<Rightarrow> SimulationResult option" where
  "run_engine normal reseed pf cs rent n seed a g =
     (case MonteCarloSimulator_init reseed pf cs rent n seed g of
        None \<Rightarrow> None
      | Some (simulator, g') \<Rightarrow> Some (fst (simulate normal simulator a g')))"

section \<open>The loan evolution calculator (\<^verbatim>\<open>monte_carlo.calculate_loan_evolution\<close>)\<close>

text \<open>
  A \<^verbatim>\<open>dict[str, float]\<close> is an association list in insertion order; a well-formed
  one has distinct keys. Float division raises \<^verbatim>\<open>ZeroDivisionError\<close> on a zero
  divisor, so the one division of the calculator is a fallible operation.
\<close>

datatype py_error = ZeroDivisionError

definition truediv :: "real \<Rightarrow> real \<Rightarrow> py_error + real" where
  "truediv x y = (if y = 0 then Inl ZeroDivisionError else Inr (x / y))"

text \<open>Line 323: the dict comprehension; a later entry of the same name wins.\<close>

definition contrib_map :: "Contribution list \<Rightarrow> (string \<rightharpoonup> real)" where
  "contrib_map cs = fold (\<lambda>c m. m(name c \<mapsto> monthly_amount c)) cs Map.empty"

text \<open>Lines 338 to 345: one participant's monthly amount under the stop and scale policy.\<close>

definition loan_monthly ::
  "int option \<Rightarrow> int option \<Rightarrow> real \<Rightarrow> (string \<rightharpoonup> real) \<Rightarrow> string \<Rightarrow> int \<Rightarrow> real" where
  "loan_monthly end_y change_y factor cm person year =
     (let monthly = (case cm person of None \<Rightarrow> 0 | Some m \<Rightarrow> m) in
      if (case end_y of None \<Rightarrow> False | Some e \<Rightarrow> year \<ge> e) then 0
      else if (case change_y of None \<Rightarrow> False | Some c \<Rightarrow> year \<ge> c) then monthly * factor
      else monthly)"

text \<open>Step 1, lines 337 to 347.\<close>

definition add_contributions ::
  "int option \<Rightarrow> int option \<Rightarrow> real \<Rightarrow> (string \<rightharpoonup> real) \<Rightarrow> int \<Rightarrow> int
     \<Rightarrow> (string \<times> real) list \<Rightarrow> (string \<times> real) list" where
  "add_contributions end_y change_y factor cm year months current_loans =
     map (\<lambda>(person, v).
            (person, v + loan_monthly end_y change_y factor cm person year * real_of_int months))
         current_loans"

text \<open>\<^verbatim>\<open>d[k] = f(d[k])\<close> on an association list.\<close>

definition adjust :: "string \<Rightarrow> (real \<Rightarrow> real) \<Rightarrow> (string \<times> real) list \<Rightarrow> (string \<times> real) list" where
  "adjust k f d = map (\<lambda>(person, v). if person = k then (person, f v) else (person, v)) d"

text \<open>Step 2, lines 350 to 354.\<close>

definition subtract_rental_repayment ::
  "RentalProperty option \<Rightarrow> int \<Rightarrow> (string \<times> real) list \<Rightarrow> (string \<times> real) list" where
  "subtract_rental_repayment rent year current_loans =
     (case rent of
        None \<Rightarrow> current_loans
      | Some r \<Rightarrow>
          if include r \<and> sell r \<and> year = sale_year r then
            (let loans1 = (if ''Mart'' \<in> set (map fst current_loans)
                           then adjust ''Mart'' (\<lambda>v. v - mart_share r) current_loans
                           else current_loans)
             in if ''Kerli'' \<in> set (map fst loans1)
                then adjust ''Kerli'' (\<lambda>v. v - kerli_share r) loans1
                else loans1)
          else current_loans)"

text \<open>
  Step 3, lines 357 to 366. \<^verbatim>\<open>payouts\<close> is \<open>None\<close> by default, and both \<open>None\<close>
  and the empty list are falsy.
\<close>

definition subtract_loan_repayment ::
  "string \<Rightarrow> real list option \<Rightarrow> nat \<Rightarrow> (string \<times> real) list
     \<Rightarrow> py_error + (string \<times> real) list" where
  "subtract_loan_repayment mode pay year_idx current_loans =
     (case pay of
        None \<Rightarrow> Inr current_loans
      | Some ps \<Rightarrow>
          if mode = ''loan'' \<and> ps \<noteq> [] \<and> year_idx < length ps then
            (let payout_amount = ps ! year_idx in
             if payout_amount > 0 then
               (let total_loan = sum_list (map snd current_loans) in
                if total_loan > 0 then
                  (case truediv (total_loan - payout_amount) total_loan of
                     Inl e \<Rightarrow> Inl e
                   | Inr ratio \<Rightarrow>
                       Inr (map (\<lambda>(person, v). (person, v * max 0 ratio)) current_loans))
                else Inr current_loans)
             else Inr current_loans)
          else Inr current_loans)"

text \<open>Lines 369 to 370: the year's balances are appended to the participants' lists.\<close>

definition store_snapshot ::
  "(string \<times> real) list \<Rightarrow> (string \<times> real list) list \<Rightarrow> (string \<times> real list) list" where
  "store_snapshot current_loans loan_evolution =
     fold (\<lambda>(person, v) ev. map (\<lambda>(k, h). if k = person then (k, h @ [v]) else (k, h)) ev)
          current_loans loan_evolution"

text \<open>
  The body of the loop over the years, up to the snapshot. \<open>y0\<close> is \<^verbatim>\<open>years[0]\<close>.
\<close>

definition loan_year ::
  "(string \<rightharpoonup> real) \<Rightarrow> RentalProperty option \<Rightarrow> int \<Rightarrow> real list option \<Rightarrow> string
     \<Rightarrow> int option \<Rightarrow> int option \<Rightarrow> real \<Rightarrow> int \<Rightarrow> nat \<times> int
     \<Rightarrow> (string \<times> real) list \<Rightarrow> py_error + (string \<times> real) list" where
  "loan_year cm rent start_m pay mode end_y change_y factor y0 = (\<lambda>(year_idx, year) current_loans.
     let months = (if year = y0 then 12 - start_m + 1 else 12);
         loans1 = add_contributions end_y change_y factor cm year months current_loans;
         loans2 = subtract_rental_repayment rent year loans1
     in subtract_loan_repayment mode pay year_idx loans2)"

fun loan_loop ::
  "(nat \<times> int \<Rightarrow> (string \<times> real) list \<Rightarrow> py_error + (string \<times> real) list)
     \<Rightarrow> (nat \<times> int) list \<Rightarrow> (string \<times> real) list \<times> (string \<times> real list) list
     \<Rightarrow> py_error + (string \<times> real list) list" where
  "loan_loop body [] (current_loans, loan_evolution) = Inr loan_evolution"
| "loan_loop body (iy # rest) (current_loans, loan_evolution) =
     (case body iy current_loans of
        Inl e \<Rightarrow> Inl e
      | Inr loans' \<Rightarrow> loan_loop body rest (loans', store_snapshot loans' loan_evolution))"

definition calculate_loan_evolution ::
  "(string \<times> real) list \<Rightarrow> Contribution list \<Rightarrow> int list \<Rightarrow> RentalProperty option \<Rightarrow> int
     \<Rightarrow> real list option \<Rightarrow> string \<Rightarrow> int option \<Rightarrow> int option \<Rightarrow> real
     \<Rightarrow> py_error + (string \<times> real list) list" where
  "calculate_loan_evolution loans0 cs ys rent start_m pay mode end_y change_y factor =
     (let loan_evolution = map (\<lambda>(person, v). (person, [])) loans0 in
      case ys of
        [] \<Rightarrow> Inr loan_evolution
      | y0 # _ \<Rightarrow>
          loan_loop (loan_year (contrib_map cs) rent start_m pay mode end_y change_y factor y0)
            (enumerate 0 ys) (loans0, loan_evolution))"

subsection \<open>Reading the returned ledger year by year\<close>

text \<open>
  The balances the returned mapping records for the year with index \<open>n\<close>, and the
  balances that year starts from: the starting loans in the first year, the balances
  recorded for the year before in every later one.
\<close>

definition ledger_year :: "(string \<times> real list) list \<Rightarrow> nat \<Rightarrow> (string \<times> real) list" where
  "ledger_year ev n = map (\<lambda>(k, h). (k, h ! n)) ev"

definition loans_before ::
  "(string \<times> real) list \<Rightarrow> (string \<times> real list) list \<Rightarrow> nat \<Rightarrow> (string \<times> real) list" where
  "loans_before loans0 ev n = (if n = 0 then loans0 else ledger_year ev (n - 1))"

text \<open>
  The balances inside the body of the loop: after step 1 (lines 332 to 347) and after
  step 2 (lines 350 to 354).
\<close>

definition after_step_1 ::
  "int option \<Rightarrow> int option \<Rightarrow> real \<Rightarrow> (string \<rightharpoonup> real) \<Rightarrow> int \<Rightarrow> int \<Rightarrow> int
     \<Rightarrow> (string \<times> real) list \<Rightarrow> (string \<times> real) list" where
  "after_step_1 end_y change_y factor cm start_m y0 year current_loans =
     add_contributions end_y change_y factor cm year
       (if year = y0 then 12 - start_m + 1 else 12) current_loans"

definition after_step_2 ::
  "int option \<Rightarrow> int option \<Rightarrow> real \<Rightarrow> (string \<rightharpoonup> real) \<Rightarrow> RentalProperty option \<Rightarrow> int \<Rightarrow> int
     \<Rightarrow> int \<Rightarrow> (string \<times> real) list \<Rightarrow> (string \<times> real) list" where
  "after_step_2 end_y change_y factor cm rent start_m y0 year current_loans =
     subtract_rental_repayment rent year
       (after_step_1 end_y change_y factor cm start_m y0 year current_loans)"

section \<open>Example inputs\<close>

text \<open>
  Concrete inputs on which the properties below are evaluated: a sampler whose every
  draw is 0 (a market that does not move), a simulator without contributions, a
  one-month run that starts in December 2026 with a withdrawal rate of 10 percent, and a
  rental configuration whose inclusion flag is off.
\<close>

definition flat_sampler :: "unit sampler" where
  "flat_sampler g mu sigma = (0, g)"

definition demo_simulator :: Simulator where
  "demo_simulator = \<lparr>portfolio = [], contributions = [], rental = None, n_simulations = 1,
     portfolio_return = 0, portfolio_volatility = 0\<rparr>"

definition demo_args :: sim_args where
  "demo_args = \<lparr>start_year = 2026, start_month = 12, end_year = 2026, starting_capital = 0,
     starting_loans = None, annual_costs = 0, withdrawal_rate = 0.1, withdrawal_start_year = 2026,
     withdrawal_mode = ''loan'', contribution_end_year = None, contribution_change_year = None,
     contribution_change_factor = 1\<rparr>"

definition demo_rental :: RentalProperty where
  "demo_rental = \<lparr>include = False, sell = True, sale_year = 2026, mortgage_2026 = 100000,
     monthly_payment = 500, monthly_income = 800, interest_rate = 0.04,
     mart_share = 5000, kerli_share = 5000\<rparr>"

definition demo_contribs :: "Contribution list" where
  "demo_contribs = [\<lparr>name = ''Mart'', monthly_amount = 850\<rparr>, \<lparr>name = ''Kerli'', monthly_amount = 650\<rparr>]"

text \<open>
  A generator that counts: its state is a number, a draw is a hundredth of the state, and
  reseeding accepts the seeds numpy accepts, from 0 to \<open>2^32 - 1\<close>.
\<close>

definition counting_sampler :: "nat sampler" where
  "counting_sampler g mu sigma = (real g / 100, g + 1)"

definition demo_reseed :: "int \<Rightarrow> nat option" where
  "demo_reseed s = (if 0 \<le> s \<and> s < 2 ^ 32 then Some (nat s) else None)"

text \<open>A trajectory matrix of three paths over two years, and two starting loans.\<close>

definition demo_paths :: "real list list" where
  "demo_paths = [[400, 300], [100, 100], [200, 200]]"

definition demo_loans :: "(string \<times> real) list" where
  "demo_loans = [(''Mart'', 1000), (''Kerli'', 500)]"

text \<open>
  The same arguments without withdrawals and with a contribution policy that stops and
  halves the contributions from 2027 on; the rental configuration with its inclusion
  flag set; and the ledger of the two starting loans over 2026 and 2027.
\<close>

definition demo_policy_args :: sim_args where
  "demo_policy_args = demo_args\<lparr>withdrawal_rate := 0, contribution_end_year := Some 2027,
     contribution_change_year := Some 2027, contribution_change_factor := 0.5\<rparr>"

definition demo_rental_included :: RentalProperty where
  "demo_rental_included = demo_rental\<lparr>include := True\<rparr>"

definition demo_ledger :: "(string \<times> real list) list" where
  "demo_ledger = [(''Mart'', [1100, 10170]), (''Kerli'', [-600, 6480])]"

section \<open>Properties of the portfolio validation\<close>

lemma sum_allocation_weights:
  "sum_list (allocation_weights etfs) = sum_list (map snd etfs) / 100"
  by (induction etfs) (auto simp: allocation_weights_def add_divide_distrib)

lemma find_None_range:
  "find (\<lambda>(i, pct). pct < 0 \<or> pct > (100::real)) etfs = None
     \<longleftrightarrow> (\<forall>(i, pct) \<in> set etfs. 0 \<le> pct \<and> pct \<le> 100)"
  by (induction etfs) (auto split: if_splits)

text \<open>
  Claim C1 as stated fails. A single instrument at 100.05 percent is a non-empty
  collection whose weights sum to 1.0005, within 0.001 of 1.0, and the validation still
  rejects it, because an allocation above 100 percent is refused by a third check.
  (The sum of one number is exact.)
\<close>

theorem validate_portfolio_rejects_in_tolerance:
  "nonblank_entries [(''IE00BK5BQT80'', 100.05)] \<noteq> []
   \<and> \<bar>sum_list (allocation_weights (nonblank_entries [(''IE00BK5BQT80'', 100.05)])) - 1\<bar> \<le> 0.001
   \<and> validate_portfolio sum_list [(''IE00BK5BQT80'', 100.05)]
       = (False, InvalidAllocation ''IE00BK5BQT80'' 100.05)"
  by (simp add: validate_portfolio_def nonblank_entries_def strip_def py_isspace_def
      allocation_weights_def)

text \<open>
  Claim C1, amended. The validation happens in the request handler, before any market
  data is fetched or any path is simulated; the simulator's constructor accepts every
  portfolio, the empty one too (it can only fail on a seed that numpy rejects).
  A list of (identifier, percent) pairs is accepted exactly when, after the entries whose
  identifier is empty or all whitespace are dropped, it is non-empty, the percentages as
  the code adds them up in floating point are within 0.1 of 100, and every percentage
  lies between 0 and 100. In terms of the exact weights, with \<open>e\<close> the rounding error of
  that sum: a non-empty list with every percentage between 0 and 100 is accepted when
  its weights sum to 1.0 within \<open>0.001 - e / 100\<close>, and every list whose weights miss 1.0
  by more than \<open>0.001 + e / 100\<close> is rejected. On a rejection the handler returns the
  validation message and the rest of the run is not started.
\<close>

theorem validate_portfolio_accepts_iff:
  "(fst (validate_portfolio float_sum etfs) \<longleftrightarrow>
      nonblank_entries etfs \<noteq> []
      \<and> \<bar>float_sum (map snd (nonblank_entries etfs)) - 100\<bar> \<le> 0.1
      \<and> (\<forall>(i, pct) \<in> set (nonblank_entries etfs). 0 \<le> pct \<and> pct \<le> 100))
   \<and> (nonblank_entries etfs \<noteq> []
        \<and> \<bar>sum_list (allocation_weights (nonblank_entries etfs)) - 1\<bar>
            \<le> 0.001 - \<bar>float_sum (map snd (nonblank_entries etfs))
                           - sum_list (map snd (nonblank_entries etfs))\<bar> / 100
        \<and> (\<forall>(i, pct) \<in> set (nonblank_entries etfs). 0 \<le> pct \<and> pct \<le> 100)
        \<longrightarrow> fst (validate_portfolio float_sum etfs))
   \<and> (\<bar>sum_list (allocation_weights (nonblank_entries etfs)) - 1\<bar>
          > 0.001 + \<bar>float_sum (map snd (nonblank_entries etfs))
                       - sum_list (map snd (nonblank_entries etfs))\<bar> / 100
        \<longrightarrow> \<not> fst (validate_portfolio float_sum etfs))
   \<and> run_simulation_validated float_sum etfs proceed =
       (if fst (validate_portfolio float_sum etfs) then Inr (proceed etfs)
        else Inl (snd (validate_portfolio float_sum etfs)))
   \<and> (MonteCarloSimulator_init reseed pf cs rent n seed g = None
        \<longleftrightarrow> (\<exists>s. seed = Some s \<and> reseed s = None))"
proof -
  let ?kept = "nonblank_entries etfs"
  let ?fs = "float_sum (map snd ?kept)" and ?es = "sum_list (map snd ?kept)"
  have weights: "sum_list (allocation_weights ?kept) - 1 = (?es - 100) / 100"
    unfolding sum_allocation_weights by (simp add: field_simps)
  have accept: "fst (validate_portfolio float_sum etfs) \<longleftrightarrow>
      ?kept \<noteq> [] \<and> \<bar>?fs - 100\<bar> \<le> 0.1 \<and> (\<forall>(i, pct) \<in> set ?kept. 0 \<le> pct \<and> pct \<le> 100)"
    unfolding find_None_range [symmetric]
    by (auto simp: validate_portfolio_def Let_def split: option.splits)
  have near: "\<bar>?fs - 100\<bar> \<le> 0.1"
    if "\<bar>sum_list (allocation_weights ?kept) - 1\<bar> \<le> 0.001 - \<bar>?fs - ?es\<bar> / 100"
  proof -
    from that have "\<bar>?es - 100\<bar> / 100 \<le> 0.001 - \<bar>?fs - ?es\<bar> / 100"
      unfolding weights by simp
    then have "\<bar>?es - 100\<bar> + \<bar>?fs - ?es\<bar> \<le> 0.1" by (simp add: field_simps)
    then show ?thesis by linarith
  qed
  have far: "\<bar>?fs - 100\<bar> > 0.1"
    if "\<bar>sum_list (allocation_weights ?kept) - 1\<bar> > 0.001 + \<bar>?fs - ?es\<bar> / 100"
  proof -
    from that have "\<bar>?es - 100\<bar> / 100 > 0.001 + \<bar>?fs - ?es\<bar> / 100"
      unfolding weights by simp
    then have "\<bar>?es - 100\<bar> - \<bar>?fs - ?es\<bar> > 0.1" by (simp add: field_simps)
    then show ?thesis by linarith
  qed
  have gate: "run_simulation_validated float_sum etfs proceed =
       (if fst (validate_portfolio float_sum etfs) then Inr (proceed etfs)
        else Inl (snd (validate_portfolio float_sum etfs)))"
    by (simp add: run_simulation_validated_def split: prod.splits)
  have init: "MonteCarloSimulator_init reseed pf cs rent n seed g = None
        \<longleftrightarrow> (\<exists>s. seed = Some s \<and> reseed s = None)"
    by (simp add: MonteCarloSimulator_init_def Let_def split: option.splits)
  show ?thesis
  proof (intro conjI impI)
    show "fst (validate_portfolio float_sum etfs) \<longleftrightarrow>
      ?kept \<noteq> [] \<and> \<bar>?fs - 100\<bar> \<le> 0.1 \<and> (\<forall>(i, pct) \<in> set ?kept. 0 \<le> pct \<and> pct \<le> 100)"
      by (rule accept)
  next
    assume "?kept \<noteq> []
        \<and> \<bar>sum_list (allocation_weights ?kept) - 1\<bar> \<le> 0.001 - \<bar>?fs - ?es\<bar> / 100
        \<and> (\<forall>(i, pct) \<in> set ?kept. 0 \<le> pct \<and> pct \<le> 100)"
    then show "fst (validate_portfolio float_sum etfs)"
      unfolding accept using near by blast
  next
    assume "\<bar>sum_list (allocation_weights ?kept) - 1\<bar> > 0.001 + \<bar>?fs - ?es\<bar> / 100"
    then have "\<bar>?fs - 100\<bar> > 0.1" by (rule far)
    then show "\<not> fst (validate_portfolio float_sum etfs)"
      unfolding accept by simp
  next
    show "run_simulation_validated float_sum etfs proceed =
       (if fst (validate_portfolio float_sum etfs) then Inr (proceed etfs)
        else Inl (snd (validate_portfolio float_sum etfs)))"
      by (rule gate)
  next
    show "MonteCarloSimulator_init reseed pf cs rent n seed g = None
        \<longleftrightarrow> (\<exists>s. seed = Some s \<and> reseed s = None)"
      by (rule init)
  qed
qed

theorem validate_portfolio_accepts_iff_witness:
  "fst (validate_portfolio sum_list [(''IE00BK5BQT80'', 60), (''IE00B4L5Y983'', 40)])
   \<and> run_simulation_validated sum_list [(''IE00BK5BQT80'', 60), (''IE00B4L5Y983'', 40)] length
       = Inr 2
   \<and> run_simulation_validated sum_list [(''IE00BK5BQT80'', 60), (''  '', 40)] length
       = Inl (MustSumTo100 60)
   \<and> run_simulation_validated sum_list [([CHR 0xA0], 100)] length = Inl AtLeastOneETF
   \<and> MonteCarloSimulator_init demo_reseed [] [] None 1 None (0::nat) \<noteq> None"
  using validate_portfolio_accepts_iff [of sum_list "[(''IE00BK5BQT80'', 60), (''IE00B4L5Y983'', 40)]"
      length demo_reseed "[]" "[]" None 1 None 0]
    validate_portfolio_accepts_iff [of sum_list "[(''IE00BK5BQT80'', 60), (''  '', 40)]" length
      demo_reseed "[]" "[]" None 1 None 0]
    validate_portfolio_accepts_iff [of sum_list "[([CHR 0xA0], 100)]" length
      demo_reseed "[]" "[]" None 1 None 0]
  by (simp add: validate_portfolio_def nonblank_entries_def strip_def py_isspace_def
      allocation_weights_def)

section \<open>Properties of the stochastic path engine\<close>

lemma month_flows_budget:
  "0 < B \<Longrightarrow> month_flows self a year B m (b, p) =
     (fst (month_flows self a year 0 m (b, p)) - B / 12, p + B / 12)"
  by (simp add: month_flows_def Let_def split: option.splits)

lemma month_flows_no_budget:
  "B \<le> 0 \<Longrightarrow> month_flows self a year B m (b, p) = month_flows self a year 0 m (b, p)"
  by (simp add: month_flows_def Let_def split: option.splits)

lemma month_flows_snd_no_budget:
  "B \<le> 0 \<Longrightarrow> snd (month_flows self a year B m (b, p)) = p"
  by (simp add: month_flows_def Let_def split: option.splits)

lemma month_flows_snd_budget:
  "0 < B \<Longrightarrow> snd (month_flows self a year B m (b, p)) = p + B / 12"
  by (simp add: month_flows_def Let_def split: option.splits)

lemma month_loop_Cons:
  "month_loop normal self a year B (m # ms) (b, p, g) =
     month_loop normal self a year B ms
       (fst (month_flows self a year B m (b, p))
          * (1 + fst (normal g (monthly_return self) (monthly_vol self))),
        snd (month_flows self a year B m (b, p)),
        snd (normal g (monthly_return self) (monthly_vol self)))"
  by (simp add: case_prod_beta)

lemma month_loop_payout:
  "0 < B \<Longrightarrow> fst (snd (month_loop normal self a year B ms (b, p, g)))
     = p + real (length ms) * (B / 12)"
proof (induction ms arbitrary: b p g)
  case Nil
  then show ?case by simp
next
  case (Cons m ms)
  show ?case
    unfolding month_loop_Cons Cons.IH [OF Cons.prems] month_flows_snd_budget [OF Cons.prems]
    by (simp add: algebra_simps)
qed

lemma month_loop_no_payout:
  "B \<le> 0 \<Longrightarrow> fst (snd (month_loop normal self a year B ms (b, p, g))) = p"
proof (induction ms arbitrary: b p g)
  case Nil
  then show ?case by simp
next
  case (Cons m ms)
  show ?case
    unfolding month_loop_Cons Cons.IH [OF Cons.prems] month_flows_snd_no_budget [OF Cons.prems]
    by (rule refl)
qed

text \<open>
  Claim C2 as stated fails. In a year at or past the withdrawal start year, with a
  positive rate and a start-of-year balance of -1200, the budget is 0.1 * (-1200) = -120,
  but the months withdraw only when the budget is positive: the month leaves the balance
  where it is instead of subtracting -10, and the year's recorded withdrawal is 0.
\<close>

theorem no_withdrawal_on_negative_balance:
  "year_withdrawal_budget demo_args 2026 (-1200) = -120
   \<and> month_flows demo_simulator demo_args 2026 (-120) 11 (-1200, 0) = (-1200, 0)
   \<and> simulate_year flat_sampler demo_simulator demo_args 2026 (-1200, ()) = (-1200, 0, ())"
  by (simp add: year_withdrawal_budget_def demo_args_def demo_simulator_def month_flows_def
      current_monthly_contrib_def simulate_year_def flat_sampler_def)

text \<open>
  Claim C2, amended. In a year at or past the withdrawal start year and with a positive
  withdrawal rate, the year's budget is the rate times the balance at the start of the
  year and is the same for every month of the year. When the start-of-year balance is
  positive, each simulated month subtracts a twelfth of the budget from the balance, the
  gross withdrawal accumulated over the months is the number of simulated months times
  that twelfth, and the stored figure is that sum (times 0.78 in dividend mode). When
  the start-of-year balance is zero or negative, nothing is withdrawn in that year and the
  recorded withdrawal is 0.
\<close>

theorem withdrawal_budget_fixed_at_year_start:
  assumes "withdrawal_start_year a \<le> year" and "0 < withdrawal_rate a"
  shows "year_withdrawal_budget a year balance = withdrawal_rate a * balance
    \<and> (0 < balance \<longrightarrow>
         month_flows self a year (withdrawal_rate a * balance) m (b, p)
           = (fst (month_flows self a year 0 m (b, p)) - withdrawal_rate a * balance / 12,
              p + withdrawal_rate a * balance / 12)
       \<and> fst (snd (month_loop normal self a year (withdrawal_rate a * balance) ms (b, p, g)))
           = p + real (length ms) * (withdrawal_rate a * balance / 12)
       \<and> fst (snd (simulate_year normal self a year (balance, g)))
           = (if withdrawal_mode a = ''dividend'' then 0.78 else 1)
             * (real (length [(if year = start_year a then start_month a - 1 else 0)..11])
                * (withdrawal_rate a * balance / 12)))
    \<and> (balance \<le> 0 \<longrightarrow>
         month_flows self a year (withdrawal_rate a * balance) m (b, p)
           = month_flows self a year 0 m (b, p)
       \<and> fst (snd (simulate_year normal self a year (balance, g))) = 0)"
proof -
  let ?B = "withdrawal_rate a * balance"
  have budget: "year_withdrawal_budget a year balance = ?B"
    using assms by (simp add: year_withdrawal_budget_def)
  have pos: "0 < ?B" if "0 < balance" using that assms by simp
  have neg: "?B \<le> 0" if "balance \<le> 0" using that assms by (simp add: mult_le_0_iff)
  have year_payout: "fst (snd (simulate_year normal self a year (balance, g)))
      = (if withdrawal_mode a = ''dividend'' then 0.78 else 1)
        * fst (snd (month_loop normal self a year ?B
             [(if year = start_year a then start_month a - 1 else 0)..11] (balance, 0, g)))"
    by (simp add: simulate_year_def budget Let_def split: prod.splits)
  show ?thesis
  proof (intro conjI impI)
    show "year_withdrawal_budget a year balance = ?B" by (rule budget)
  next
    assume "0 < balance"
    then show "month_flows self a year ?B m (b, p)
           = (fst (month_flows self a year 0 m (b, p)) - ?B / 12, p + ?B / 12)"
      by (rule month_flows_budget [OF pos])
  next
    assume "0 < balance"
    then show "fst (snd (month_loop normal self a year ?B ms (b, p, g)))
           = p + real (length ms) * (?B / 12)"
      by (rule month_loop_payout [OF pos])
  next
    assume "0 < balance"
    then have B: "0 < ?B" by (rule pos)
    show "fst (snd (simulate_year normal self a year (balance, g)))
           = (if withdrawal_mode a = ''dividend'' then 0.78 else 1)
             * (real (length [(if year = start_year a then start_month a - 1 else 0)..11])
                * (?B / 12))"
      unfolding year_payout month_loop_payout [OF B] by simp
  next
    assume "balance \<le> 0"
    then show "month_flows self a year ?B m (b, p) = month_flows self a year 0 m (b, p)"
      by (rule month_flows_no_budget [OF neg])
  next
    assume "balance \<le> 0"
    then have B: "?B \<le> 0" by (rule neg)
    show "fst (snd (simulate_year normal self a year (balance, g))) = 0"
      unfolding year_payout month_loop_no_payout [OF B] by simp
  qed
qed

theorem withdrawal_budget_fixed_at_year_start_witness:
  "withdrawal_start_year demo_args \<le> 2026 \<and> 0 < withdrawal_rate demo_args
   \<and> year_withdrawal_budget demo_args 2026 1200 = 120
   \<and> fst (snd (simulate_year flat_sampler demo_simulator demo_args 2026 (1200, ()))) = 10"
  using withdrawal_budget_fixed_at_year_start [of demo_args 2026 1200 demo_simulator 0 0 0 flat_sampler "[]" "()"]
  by (simp add: demo_args_def)


lemma current_monthly_contrib_rental:
  "current_monthly_contrib (self\<lparr>rental := x\<rparr>) a year = current_monthly_contrib self a year"
  by (simp add: current_monthly_contrib_def)

text \<open>
  Claim C3 as stated fails. A rental configuration that is present with the
  financed-by-pool flag set, but whose inclusion flag is off, credits no rental income
  and deducts no mortgage share: in July of the sale year and in the year after it the
  month leaves the balance of 20000 untouched.
\<close>

theorem rental_not_included_no_cash_flow:
  "rental (demo_simulator\<lparr>rental := Some demo_rental\<rparr>) = Some demo_rental \<and> sell demo_rental
   \<and> month_flows (demo_simulator\<lparr>rental := Some demo_rental\<rparr>) demo_args 2026 0 6 (20000, 0) = (20000, 0)
   \<and> month_flows (demo_simulator\<lparr>rental := Some demo_rental\<rparr>) demo_args 2027 0 0 (20000, 0) = (20000, 0)"
  by (simp add: month_flows_def demo_simulator_def demo_rental_def demo_args_def current_monthly_contrib_def)

lemma compounded_flows_Cons:
  "compounded_flows normal self flow (m # ms) (d, g) =
     compounded_flows normal self flow ms
       ((d + flow m) * (1 + fst (normal g (monthly_return self) (monthly_vol self))),
        snd (normal g (monthly_return self) (monthly_vol self)))"
  by (simp add: case_prod_beta)

lemma month_flows_rental:
  assumes "rental self = Some r" and "include r" and "sell r"
  shows "month_flows self a year budget month (b, p) =
     (fst (month_flows (self\<lparr>rental := None\<rparr>) a year budget month (b, p))
        + claimed_rental_income r year month - claimed_mortgage_deduction r year month,
      snd (month_flows (self\<lparr>rental := None\<rparr>) a year budget month (b, p)))"
  using assms
  by (simp add: month_flows_def Let_def current_monthly_contrib_rental
      claimed_rental_income_def claimed_mortgage_deduction_def)

lemma month_flows_shift:
  "month_flows self a year budget month (b + d, p) =
     (fst (month_flows self a year budget month (b, p)) + d,
      snd (month_flows self a year budget month (b, p)))"
  by (simp add: month_flows_def Let_def split: option.splits)

lemma month_loop_rental:
  assumes "rental self = Some r" and "include r" and "sell r"
  shows "month_loop normal self a year B ms (b + d, p, g) =
     (fst (month_loop normal (self\<lparr>rental := None\<rparr>) a year B ms (b, p, g))
        + compounded_flows normal self
            (\<lambda>m. claimed_rental_income r year m - claimed_mortgage_deduction r year m) ms (d, g),
      snd (month_loop normal (self\<lparr>rental := None\<rparr>) a year B ms (b, p, g)))"
proof (induction ms arbitrary: b d p g)
  case Nil
  then show ?case by simp
next
  case (Cons m ms)
  let ?none = "self\<lparr>rental := None\<rparr>"
  let ?ret = "fst (normal g (monthly_return self) (monthly_vol self))"
  let ?flow = "\<lambda>m. claimed_rental_income r year m - claimed_mortgage_deduction r year m"
  have stats: "monthly_return ?none = monthly_return self" "monthly_vol ?none = monthly_vol self"
    by (simp_all add: monthly_return_def monthly_vol_def)
  have A: "month_flows self a year B m (b + d, p) =
     (fst (month_flows ?none a year B m (b + d, p)) + ?flow m,
      snd (month_flows ?none a year B m (b + d, p)))"
    using month_flows_rental [OF assms, of a year B m "b + d" p] by simp
  have S: "month_flows ?none a year B m (b + d, p) =
     (fst (month_flows ?none a year B m (b, p)) + d, snd (month_flows ?none a year B m (b, p)))"
    by (rule month_flows_shift)
  have step: "fst (month_flows self a year B m (b + d, p)) * (1 + ?ret)
      = fst (month_flows ?none a year B m (b, p)) * (1 + ?ret) + (d + ?flow m) * (1 + ?ret)"
    unfolding A unfolding S by (simp add: algebra_simps)
  have pay: "snd (month_flows self a year B m (b + d, p)) = snd (month_flows ?none a year B m (b, p))"
    unfolding A unfolding S by simp
  show ?case
    unfolding month_loop_Cons compounded_flows_Cons stats step pay
    by (rule Cons.IH)
qed

lemma month_loop_extra_flow:
  assumes flows: "\<And>m b p. month_flows s1 a year B m (b, p) =
       (fst (month_flows s2 a year B m (b, p)) + flow m, snd (month_flows s2 a year B m (b, p)))"
    and stats: "monthly_return s1 = monthly_return s2" "monthly_vol s1 = monthly_vol s2"
  shows "month_loop normal s1 a year B ms (b + d, p, g) =
     (fst (month_loop normal s2 a year B ms (b, p, g)) + compounded_flows normal s1 flow ms (d, g),
      snd (month_loop normal s2 a year B ms (b, p, g)))"
proof (induction ms arbitrary: b d p g)
  case Nil
  then show ?case by simp
next
  case (Cons m ms)
  let ?ret = "fst (normal g (monthly_return s2) (monthly_vol s2))"
  have S: "month_flows s2 a year B m (b + d, p) =
     (fst (month_flows s2 a year B m (b, p)) + d, snd (month_flows s2 a year B m (b, p)))"
    by (rule month_flows_shift)
  have step: "fst (month_flows s1 a year B m (b + d, p)) * (1 + ?ret)
      = fst (month_flows s2 a year B m (b, p)) * (1 + ?ret) + (d + flow m) * (1 + ?ret)"
    unfolding flows unfolding S by (simp add: algebra_simps)
  have pay: "snd (month_flows s1 a year B m (b + d, p)) = snd (month_flows s2 a year B m (b, p))"
    unfolding flows unfolding S by simp
  show ?case
    unfolding month_loop_Cons compounded_flows_Cons stats step pay
    by (rule Cons.IH)
qed

lemma simulate_year_extra_flow:
  assumes flows: "\<And>B m b p. month_flows s1 a year B m (b, p) =
       (fst (month_flows s2 a year B m (b, p)) + flow m, snd (month_flows s2 a year B m (b, p)))"
    and stats: "monthly_return s1 = monthly_return s2" "monthly_vol s1 = monthly_vol s2"
  shows "simulate_year normal s1 a year (b, g) =
     (fst (simulate_year normal s2 a year (b, g))
        + compounded_flows normal s1 flow [first_month a year..11] (0, g),
      snd (simulate_year normal s2 a year (b, g)))"
proof -
  let ?B = "year_withdrawal_budget a year b"
  have loop: "month_loop normal s1 a year ?B [first_month a year..11] (b, 0, g) =
     (fst (month_loop normal s2 a year ?B [first_month a year..11] (b, 0, g))
        + compounded_flows normal s1 flow [first_month a year..11] (0, g),
      snd (month_loop normal s2 a year ?B [first_month a year..11] (b, 0, g)))"
    using month_loop_extra_flow [of s1 a year ?B s2 flow normal "[first_month a year..11]" b 0 0 g,
        OF flows stats]
    by simp
  show ?thesis
    unfolding simulate_year_def first_month_def [symmetric]
    by (simp add: Let_def loop case_prod_beta)
qed

lemma month_flows_contributions:
  "month_flows self a year B m (b, p) =
     (fst (month_flows (self\<lparr>contributions := []\<rparr>) a year B m (b, p))
        + current_monthly_contrib self a year,
      snd (month_flows (self\<lparr>contributions := []\<rparr>) a year B m (b, p)))"
  by (simp add: month_flows_def current_monthly_contrib_def Let_def split: option.splits)

lemma sum_list_map_zero:
  "(\<And>x. x \<in> set xs \<Longrightarrow> g x = (0::real)) \<Longrightarrow> sum_list (map g xs) = 0"
  by (induction xs) auto

lemma sale_year_months:
  assumes "f \<le> 6"
  shows "filter (\<lambda>m. claimed_mortgage_deduction r (sale_year r) m \<noteq> 0) [f..11]
          = (if mart_share r + kerli_share r = 0 then [] else [6])"
    and "sum_list (map (claimed_rental_income r (sale_year r)) [f..11]) = 6 * monthly_income r"
proof -
  have split: "[f..11] = [f..5] @ [6, 7, 8, 9, 10, 11]"
    using upto_split1 [OF assms, of 11] by simp
  show "filter (\<lambda>m. claimed_mortgage_deduction r (sale_year r) m \<noteq> 0) [f..11]
          = (if mart_share r + kerli_share r = 0 then [] else [6])"
    unfolding split by (auto simp: claimed_mortgage_deduction_def filter_empty_conv)
  have "sum_list (map (claimed_rental_income r (sale_year r)) [f..5]) = 0"
    by (rule sum_list_map_zero) (simp add: claimed_rental_income_def)
  then show "sum_list (map (claimed_rental_income r (sale_year r)) [f..11]) = 6 * monthly_income r"
    unfolding split by (simp add: claimed_rental_income_def)
qed

text \<open>
  Claim C3, amended. When a rental configuration is present with both its inclusion flag
  and its financed-by-pool flag set, every month step credits the monthly rental income
  exactly when the year is strictly after the sale year, or is the sale year and the
  0-based month index is at least 6, and deducts the sum of the two mortgage shares
  exactly when the year is the sale year and the month index is 6. Over a simulated
  year that is not the sale year, or is the sale year with index 6 among its simulated
  months, the year-end balance is the year-end balance without the rental configuration
  plus these monthly flows, each compounded with the returns of its own and the later
  months of the year. In such a sale year the deduction happens in exactly one of the
  simulated months, month 6, and the income is credited in exactly six; in a year other
  than the sale year nothing is deducted.
\<close>

theorem rental_cash_flows_by_month:
  assumes "rental self = Some r" and "include r" and "sell r"
  shows "month_flows self a year budget month (b, p) =
       (fst (month_flows (self\<lparr>rental := None\<rparr>) a year budget month (b, p))
          + claimed_rental_income r year month - claimed_mortgage_deduction r year month,
        snd (month_flows (self\<lparr>rental := None\<rparr>) a year budget month (b, p)))
   \<and> ((year = sale_year r \<longrightarrow> first_month a year \<le> 6) \<longrightarrow>
        simulate_year normal self a year (b, g) =
          (fst (simulate_year normal (self\<lparr>rental := None\<rparr>) a year (b, g))
             + compounded_flows normal self
                 (\<lambda>m. claimed_rental_income r year m - claimed_mortgage_deduction r year m)
                 [first_month a year..11] (0, g),
           snd (simulate_year normal (self\<lparr>rental := None\<rparr>) a year (b, g))))
   \<and> (year = sale_year r \<and> first_month a year \<le> 6 \<longrightarrow>
        filter (\<lambda>m. claimed_mortgage_deduction r year m \<noteq> 0) [first_month a year..11]
          = (if mart_share r + kerli_share r = 0 then [] else [6])
        \<and> sum_list (map (claimed_rental_income r year) [first_month a year..11])
          = 6 * monthly_income r)
   \<and> (year \<noteq> sale_year r \<longrightarrow>
        sum_list (map (claimed_mortgage_deduction r year) [first_month a year..11]) = 0)"
proof (intro conjI impI)
  show "month_flows self a year budget month (b, p) =
       (fst (month_flows (self\<lparr>rental := None\<rparr>) a year budget month (b, p))
          + claimed_rental_income r year month - claimed_mortgage_deduction r year month,
        snd (month_flows (self\<lparr>rental := None\<rparr>) a year budget month (b, p)))"
    by (rule month_flows_rental [OF assms])
next
  assume "year = sale_year r \<longrightarrow> first_month a year \<le> 6"
  let ?B = "year_withdrawal_budget a year b"
  have loop: "month_loop normal self a year ?B [first_month a year..11] (b, 0, g) =
     (fst (month_loop normal (self\<lparr>rental := None\<rparr>) a year ?B [first_month a year..11] (b, 0, g))
        + compounded_flows normal self
            (\<lambda>m. claimed_rental_income r year m - claimed_mortgage_deduction r year m)
            [first_month a year..11] (0, g),
      snd (month_loop normal (self\<lparr>rental := None\<rparr>) a year ?B [first_month a year..11] (b, 0, g)))"
    using month_loop_rental [OF assms, of normal a year ?B "[first_month a year..11]" b 0 0 g]
    by simp
  show "simulate_year normal self a year (b, g) =
       (fst (simulate_year normal (self\<lparr>rental := None\<rparr>) a year (b, g))
          + compounded_flows normal self
              (\<lambda>m. claimed_rental_income r year m - claimed_mortgage_deduction r year m)
              [first_month a year..11] (0, g),
        snd (simulate_year normal (self\<lparr>rental := None\<rparr>) a year (b, g)))"
    unfolding simulate_year_def first_month_def [symmetric]
    by (simp add: Let_def loop case_prod_beta)
next
  assume h: "year = sale_year r \<and> first_month a year \<le> 6"
  then have sale: "year = sale_year r" and le: "first_month a (sale_year r) \<le> 6" by auto
  show "filter (\<lambda>m. claimed_mortgage_deduction r year m \<noteq> 0) [first_month a year..11]
          = (if mart_share r + kerli_share r = 0 then [] else [6])"
    unfolding sale by (rule sale_year_months(1) [OF le])
  show "sum_list (map (claimed_rental_income r year) [first_month a year..11])
          = 6 * monthly_income r"
    unfolding sale by (rule sale_year_months(2) [OF le])
next
  assume "year \<noteq> sale_year r"
  then show "sum_list (map (claimed_mortgage_deduction r year) [first_month a year..11]) = 0"
    by (intro sum_list_map_zero) (simp add: claimed_mortgage_deduction_def)
qed

lemma demo_rental_year:
  "simulate_year flat_sampler (demo_simulator\<lparr>rental := Some demo_rental_included\<rparr>)
      (demo_args\<lparr>start_month := 3, withdrawal_rate := 0\<rparr>) 2026 (20000, ())
     = (14800, 0, ())"
  "simulate_year flat_sampler (demo_simulator\<lparr>rental := None\<rparr>)
      (demo_args\<lparr>start_month := 3, withdrawal_rate := 0\<rparr>) 2026 (20000, ())
     = (20000, 0, ())"
  by (simp_all add: simulate_year_def year_withdrawal_budget_def demo_simulator_def demo_args_def
      demo_rental_included_def demo_rental_def month_flows_def current_monthly_contrib_def
      flat_sampler_def)

theorem rental_cash_flows_by_month_witness:
  "rental (demo_simulator\<lparr>rental := Some demo_rental_included\<rparr>) = Some demo_rental_included
   \<and> include demo_rental_included \<and> sell demo_rental_included
   \<and> 2026 = sale_year demo_rental_included
   \<and> first_month (demo_args\<lparr>start_month := 3, withdrawal_rate := 0\<rparr>) 2026 \<le> 6
   \<and> simulate_year flat_sampler (demo_simulator\<lparr>rental := Some demo_rental_included\<rparr>)
        (demo_args\<lparr>start_month := 3, withdrawal_rate := 0\<rparr>) 2026 (20000, ())
       = (14800, 0, ())
   \<and> simulate_year flat_sampler (demo_simulator\<lparr>rental := None\<rparr>)
        (demo_args\<lparr>start_month := 3, withdrawal_rate := 0\<rparr>) 2026 (20000, ())
       = (20000, 0, ())
   \<and> compounded_flows flat_sampler (demo_simulator\<lparr>rental := Some demo_rental_included\<rparr>)
        (\<lambda>m. claimed_rental_income demo_rental_included 2026 m
              - claimed_mortgage_deduction demo_rental_included 2026 m)
        [first_month (demo_args\<lparr>start_month := 3, withdrawal_rate := 0\<rparr>) 2026..11] (0, ())
       = 6 * 800 - 10000"
proof -
  have r: "rental (demo_simulator\<lparr>rental := Some demo_rental_included\<rparr>) = Some demo_rental_included"
    by simp
  have i: "include demo_rental_included" and s: "sell demo_rental_included"
    and y: "2026 = sale_year demo_rental_included"
    by (simp_all add: demo_rental_included_def demo_rental_def)
  have f: "first_month (demo_args\<lparr>start_month := 3, withdrawal_rate := 0\<rparr>) 2026 \<le> 6"
    by (simp add: first_month_def demo_args_def)
  have c: "compounded_flows flat_sampler (demo_simulator\<lparr>rental := Some demo_rental_included\<rparr>)
        (\<lambda>m. claimed_rental_income demo_rental_included 2026 m
              - claimed_mortgage_deduction demo_rental_included 2026 m)
        [first_month (demo_args\<lparr>start_month := 3, withdrawal_rate := 0\<rparr>) 2026..11] (0, ())
       = 6 * 800 - 10000"
    by (simp add: first_month_def demo_args_def flat_sampler_def claimed_rental_income_def
        claimed_mortgage_deduction_def demo_rental_included_def demo_rental_def)
  have evaluated: "?thesis"
    unfolding demo_rental_year using r i s y f c by simp
  from rental_cash_flows_by_month [OF r i s, of "demo_args\<lparr>start_month := 3, withdrawal_rate := 0\<rparr>" 2026 0 6 20000 0
      flat_sampler "()"]
  show ?thesis by - (rule evaluated)
qed

text \<open>
  Claim C5. A run of the engine with a seed does not depend on the state in which it
  finds the global generator: two runs with the same seed and the same configuration
  produce the same trajectory matrix, the same withdrawal matrix and the same result,
  whatever was drawn before each of them; and a run whose seed the generator accepts
  does produce them.
\<close>

theorem same_seed_same_matrices:
  "run_matrices normal reseed pf cs rent n (Some s) a g
     = run_matrices normal reseed pf cs rent n (Some s) a g'
   \<and> run_engine normal reseed pf cs rent n (Some s) a g
     = run_engine normal reseed pf cs rent n (Some s) a g'
   \<and> (reseed s \<noteq> None \<longrightarrow> run_matrices normal reseed pf cs rent n (Some s) a g \<noteq> None
         \<and> run_engine normal reseed pf cs rent n (Some s) a g \<noteq> None)"
  by (simp add: run_matrices_def run_engine_def MonteCarloSimulator_init_def Let_def
      split: option.splits)

lemma counting_run_value:
  "run_matrices counting_sampler demo_reseed [] [] None 1 (Some 42)
      (demo_args\<lparr>starting_capital := 1200\<rparr>) g = Some ([[8449 / 5]], [[10]])"
  by (simp add: run_matrices_def MonteCarloSimulator_init_def demo_reseed_def
      simulate_matrices_def simulate_year_def year_withdrawal_budget_def demo_args_def
      month_flows_def current_monthly_contrib_def counting_sampler_def)

theorem same_seed_same_matrices_witness:
  "demo_reseed 42 \<noteq> None
   \<and> run_matrices counting_sampler demo_reseed [] [] None 1 (Some 42)
        (demo_args\<lparr>starting_capital := 1200\<rparr>) 0
      = run_matrices counting_sampler demo_reseed [] [] None 1 (Some 42)
        (demo_args\<lparr>starting_capital := 1200\<rparr>) 7
   \<and> run_matrices counting_sampler demo_reseed [] [] None 1 (Some 42)
        (demo_args\<lparr>starting_capital := 1200\<rparr>) 7 = Some ([[8449 / 5]], [[10]])"
  using same_seed_same_matrices [of counting_sampler demo_reseed "[]" "[]" None 1 42
      "demo_args\<lparr>starting_capital := 1200\<rparr>" 0 7] counting_run_value [of 7]
  by (simp add: demo_reseed_def)

lemma month_loop_cong:
  assumes "\<And>year B m st. month_flows s1 a year B m st = month_flows s2 a year B m st"
    and "monthly_return s1 = monthly_return s2" and "monthly_vol s1 = monthly_vol s2"
  shows "month_loop normal s1 a year B ms st = month_loop normal s2 a year B ms st"
proof (induction ms arbitrary: st)
  case Nil
  then show ?case by simp
next
  case (Cons m ms)
  obtain b p g where st: "st = (b, p, g)" by (cases st)
  show ?case unfolding st month_loop_Cons assms Cons.IH by (rule refl)
qed

lemma simulate_year_cong:
  assumes "\<And>year B m st. month_flows s1 a year B m st = month_flows s2 a year B m st"
    and "monthly_return s1 = monthly_return s2" and "monthly_vol s1 = monthly_vol s2"
  shows "simulate_year normal s1 a year st = simulate_year normal s2 a year st"
  unfolding simulate_year_def month_loop_cong [OF assms] by (rule refl)

lemma simulate_years_cong:
  assumes "\<And>year B m st. month_flows s1 a year B m st = month_flows s2 a year B m st"
    and "monthly_return s1 = monthly_return s2" and "monthly_vol s1 = monthly_vol s2"
  shows "simulate_years normal s1 a ys st = simulate_years normal s2 a ys st"
proof (induction ys arbitrary: st)
  case Nil
  then show ?case by (cases st) simp
next
  case (Cons y ys)
  obtain b g where st: "st = (b, g)" by (cases st)
  show ?case unfolding st simulate_years.simps simulate_year_cong [OF assms] Cons.IH by (rule refl)
qed

lemma simulate_paths_cong:
  assumes "\<And>year B m st. month_flows s1 a year B m st = month_flows s2 a year B m st"
    and "monthly_return s1 = monthly_return s2" and "monthly_vol s1 = monthly_vol s2"
  shows "simulate_paths normal s1 a n g = simulate_paths normal s2 a n g"
proof (induction n arbitrary: g)
  case 0
  then show ?case by simp
next
  case (Suc n)
  show ?case unfolding simulate_paths.simps simulate_years_cong [OF assms] Suc.IH by (rule refl)
qed

lemma month_flows_mortgage_fields:
  "month_flows (self\<lparr>rental := Some (r\<lparr>mortgage_2026 := m0, monthly_payment := mp, interest_rate := ir\<rparr>)\<rparr>)
        a year B m st
     = month_flows (self\<lparr>rental := Some r\<rparr>) a year B m st"
  by (cases st) (auto simp: month_flows_def current_monthly_contrib_def Let_def)

text \<open>
  Claim C9. The matrices and the result of a simulation do not depend on the rental
  configuration's starting mortgage balance, monthly mortgage payment or mortgage
  interest rate: the simulation reads none of the three, and the amortisation helper
  that reads them is not called.
\<close>

theorem mortgage_fields_not_read:
  "simulate_matrices normal
      (self\<lparr>rental := Some (r\<lparr>mortgage_2026 := m0, monthly_payment := mp, interest_rate := ir\<rparr>)\<rparr>) a g
     = simulate_matrices normal (self\<lparr>rental := Some r\<rparr>) a g
   \<and> simulate normal
      (self\<lparr>rental := Some (r\<lparr>mortgage_2026 := m0, monthly_payment := mp, interest_rate := ir\<rparr>)\<rparr>) a g
     = simulate normal (self\<lparr>rental := Some r\<rparr>) a g"
proof -
  have "simulate_matrices normal
      (self\<lparr>rental := Some (r\<lparr>mortgage_2026 := m0, monthly_payment := mp, interest_rate := ir\<rparr>)\<rparr>) a g
     = simulate_matrices normal (self\<lparr>rental := Some r\<rparr>) a g"
    unfolding simulate_matrices_def
    by (simp add: simulate_paths_cong [OF month_flows_mortgage_fields] monthly_return_def
        monthly_vol_def)
  then show ?thesis by (simp add: simulate_def)
qed


theorem mortgage_fields_not_read_witness:
  "simulate counting_sampler
      (demo_simulator\<lparr>rental := Some (demo_rental\<lparr>mortgage_2026 := 0, monthly_payment := 1,
                                                   interest_rate := 2\<rparr>)\<rparr>)
      demo_args 0
     = simulate counting_sampler (demo_simulator\<lparr>rental := Some demo_rental\<rparr>) demo_args 0"
  using mortgage_fields_not_read [where normal = counting_sampler and self = demo_simulator
      and r = demo_rental and ?m0.0 = 0 and mp = 1 and ir = 2 and a = demo_args and g = 0]
  by simp

lemma month_loop_cong2:
  assumes "\<And>m st. month_flows s1 a1 year B m st = month_flows s2 a2 year B m st"
    and "monthly_return s1 = monthly_return s2" and "monthly_vol s1 = monthly_vol s2"
  shows "month_loop normal s1 a1 year B ms st = month_loop normal s2 a2 year B ms st"
proof (induction ms arbitrary: st)
  case Nil
  then show ?case by simp
next
  case (Cons m ms)
  obtain b p g where st: "st = (b, p, g)" by (cases st)
  show ?case unfolding st month_loop_Cons assms Cons.IH by (rule refl)
qed

lemma month_flows_contrib:
  assumes "current_monthly_contrib s1 a1 year = current_monthly_contrib s2 a2 year"
    and "annual_costs a1 = annual_costs a2" and "rental s1 = rental s2"
  shows "month_flows s1 a1 year B m st = month_flows s2 a2 year B m st"
  by (cases st) (simp add: month_flows_def assms)

lemma simulate_year_contrib:
  assumes "current_monthly_contrib s1 a1 year = current_monthly_contrib s2 a2 year"
    and "annual_costs a1 = annual_costs a2" and "rental s1 = rental s2"
    and "portfolio_return s1 = portfolio_return s2"
    and "portfolio_volatility s1 = portfolio_volatility s2"
    and "start_year a1 = start_year a2" and "start_month a1 = start_month a2"
    and "withdrawal_rate a1 = withdrawal_rate a2"
    and "withdrawal_start_year a1 = withdrawal_start_year a2"
    and "withdrawal_mode a1 = withdrawal_mode a2"
  shows "simulate_year normal s1 a1 year st = simulate_year normal s2 a2 year st"
proof -
  have loop: "month_loop normal s1 a1 year B ms st' = month_loop normal s2 a2 year B ms st'"
    for B ms st'
    by (rule month_loop_cong2)
       (simp_all add: month_flows_contrib [OF assms(1-3)] monthly_return_def monthly_vol_def
          assms(4,5))
  show ?thesis
    by (cases st) (simp add: simulate_year_def year_withdrawal_budget_def loop assms(6-10))
qed

section \<open>Properties of the percentile aggregator\<close>

lemma percentile_lerp:
  "xs \<noteq> [] \<Longrightarrow> percentile xs q = Some (lerp_at (sort xs) (real (length xs - 1) * q / 100))"
  by (simp add: percentile_def lerp_at_def Let_def)

lemma floor_index:
  assumes "0 \<le> h" and "h \<le> real (length s - 1)"
  shows "nat \<lfloor>h\<rfloor> \<le> length s - 1" and "real (nat \<lfloor>h\<rfloor>) \<le> h" and "h < real (nat \<lfloor>h\<rfloor>) + 1"
proof -
  have "\<lfloor>h\<rfloor> \<le> \<lfloor>real (length s - 1)\<rfloor>" using assms(2) by (rule floor_mono)
  then show "nat \<lfloor>h\<rfloor> \<le> length s - 1" by simp
  have nn: "0 \<le> \<lfloor>h\<rfloor>" using assms(1) by simp
  then have r: "real (nat \<lfloor>h\<rfloor>) = of_int \<lfloor>h\<rfloor>" by simp
  show "real (nat \<lfloor>h\<rfloor>) \<le> h" unfolding r by (rule of_int_floor_le)
  show "h < real (nat \<lfloor>h\<rfloor>) + 1" unfolding r by linarith
qed

lemma lerp_between:
  assumes "sorted s" and "s \<noteq> []" and "0 \<le> h" and "h \<le> real (length s - 1)"
  shows "s ! nat \<lfloor>h\<rfloor> \<le> lerp_at s h" and "lerp_at s h \<le> s ! min (nat \<lfloor>h\<rfloor> + 1) (length s - 1)"
proof -
  let ?lo = "nat \<lfloor>h\<rfloor>" and ?hi = "min (nat \<lfloor>h\<rfloor> + 1) (length s - 1)"
  note fi = floor_index [OF assms(3,4)]
  have "?lo \<le> ?hi" using fi(1) by simp
  moreover have "?hi < length s" using assms(2) by (cases s) (auto simp: min_def)
  ultimately have le: "s ! ?lo \<le> s ! ?hi" using assms(1) by (simp add: sorted_nth_mono)
  define t where "t = h - real ?lo"
  have t: "0 \<le> t" "t \<le> 1" using fi(2,3) unfolding t_def by linarith+
  have eq: "lerp_at s h = s ! ?lo + (s ! ?hi - s ! ?lo) * t" by (simp add: lerp_at_def t_def)
  have "0 \<le> (s ! ?hi - s ! ?lo) * t" using le t(1) by simp
  then show "s ! ?lo \<le> lerp_at s h" unfolding eq by simp
  have "(s ! ?hi - s ! ?lo) * t \<le> (s ! ?hi - s ! ?lo) * 1"
    using le t(2) by (intro mult_left_mono) simp_all
  then show "lerp_at s h \<le> s ! ?hi" unfolding eq by simp
qed

lemma lerp_mono:
  assumes "sorted s" and "s \<noteq> []" and "0 \<le> h1" and "h1 \<le> h2" and "h2 \<le> real (length s - 1)"
  shows "lerp_at s h1 \<le> lerp_at s h2"
proof -
  have h1: "h1 \<le> real (length s - 1)" and h2: "0 \<le> h2" using assms by simp_all
  note f1 = floor_index [OF assms(3) h1] and f2 = floor_index [OF h2 assms(5)]
  have lo: "nat \<lfloor>h1\<rfloor> \<le> nat \<lfloor>h2\<rfloor>" using assms(4) by (simp add: floor_mono nat_mono)
  show ?thesis
  proof (cases "nat \<lfloor>h1\<rfloor> = nat \<lfloor>h2\<rfloor>")
    case True
    let ?lo = "nat \<lfloor>h2\<rfloor>" and ?hi = "min (nat \<lfloor>h2\<rfloor> + 1) (length s - 1)"
    have "?lo \<le> ?hi" using f2(1) by simp
    moreover have "?hi < length s" using assms(2) by (cases s) (auto simp: min_def)
    ultimately have le: "0 \<le> s ! ?hi - s ! ?lo" using assms(1) by (simp add: sorted_nth_mono)
    have "(s ! ?hi - s ! ?lo) * (h1 - real ?lo) \<le> (s ! ?hi - s ! ?lo) * (h2 - real ?lo)"
      using le assms(4) by (intro mult_left_mono) simp_all
    then show ?thesis by (simp add: lerp_at_def True)
  next
    case False
    with lo have lt: "nat \<lfloor>h1\<rfloor> + 1 \<le> nat \<lfloor>h2\<rfloor>" by simp
    have "lerp_at s h1 \<le> s ! min (nat \<lfloor>h1\<rfloor> + 1) (length s - 1)"
      by (rule lerp_between(2) [OF assms(1,2,3) h1])
    also have "\<dots> \<le> s ! nat \<lfloor>h2\<rfloor>"
    proof (rule sorted_nth_mono [OF assms(1)])
      show "min (nat \<lfloor>h1\<rfloor> + 1) (length s - 1) \<le> nat \<lfloor>h2\<rfloor>" using lt by simp
      show "nat \<lfloor>h2\<rfloor> < length s" using f2(1) assms(2) by (cases s) simp_all
    qed
    also have "\<dots> \<le> lerp_at s h2"
      by (rule lerp_between(1) [OF assms(1,2) h2 assms(5)])
    finally show ?thesis .
  qed
qed

lemma percentile_mono:
  assumes "xs \<noteq> []" and "0 \<le> q1" and "q1 \<le> q2" and "q2 \<le> 100"
  shows "float_le (percentile xs q1) (percentile xs q2)"
proof -
  let ?n = "real (length xs - 1)"
  have len: "length (sort xs) = length xs" by simp
  have s: "sorted (sort xs)" "sort xs \<noteq> []"
    using assms(1) len by (simp, metis length_0_conv)
  have a: "0 \<le> ?n * q1 / 100" using assms(2) by simp
  have b: "?n * q1 / 100 \<le> ?n * q2 / 100"
    using assms(3) by (simp add: mult_left_mono divide_right_mono)
  have "?n * q2 \<le> ?n * 100" using assms(4) by (intro mult_left_mono) simp_all
  then have c: "?n * q2 / 100 \<le> real (length (sort xs) - 1)" unfolding len by simp
  show ?thesis
    unfolding percentile_lerp [OF assms(1)] float_le.simps
    by (rule lerp_mono [OF s(1,2) a b c])
qed

lemma column_nonempty: "paths \<noteq> [] \<Longrightarrow> column paths j \<noteq> []"
  by (simp add: column_def)

lemma percentile_axis0_nth:
  "j < n \<Longrightarrow> percentile_axis0 m n q ! j = percentile (column m j) q"
  by (simp add: percentile_axis0_def)

lemma percentiles_lookup:
  "map_of (map (\<lambda>i. (i, f i)) [0..<n]) k = (if k < n then Some (f k) else None)"
  by (induction n) (auto simp: map_add_def less_Suc_eq split: option.splits)

text \<open>
  Claim C8. For every trajectory matrix with at least one path and every simulated year,
  the reported bands satisfy p2 \<open>\<le>\<close> p10 \<open>\<le>\<close> p50 \<open>\<le>\<close> p90 \<open>\<le>\<close> p98, and each of these
  five lies between the entries p0 and p100 of the full percentile table for that year.
  (With no path at all every percentile is \<^verbatim>\<open>nan\<close> and no comparison holds.)
\<close>

theorem percentile_bands_ordered:
  assumes "paths \<noteq> []" and "j < length ys"
  shows "float_le (p2 (aggregate ys paths payouts_paths) ! j) (p10 (aggregate ys paths payouts_paths) ! j)
    \<and> float_le (p10 (aggregate ys paths payouts_paths) ! j) (p50 (aggregate ys paths payouts_paths) ! j)
    \<and> float_le (p50 (aggregate ys paths payouts_paths) ! j) (p90 (aggregate ys paths payouts_paths) ! j)
    \<and> float_le (p90 (aggregate ys paths payouts_paths) ! j) (p98 (aggregate ys paths payouts_paths) ! j)
    \<and> (\<exists>t0 t100. map_of (percentiles (aggregate ys paths payouts_paths)) 0 = Some t0
          \<and> map_of (percentiles (aggregate ys paths payouts_paths)) 100 = Some t100
          \<and> (\<forall>band \<in> {p2, p10, p50, p90, p98}.
                float_le (t0 ! j) (band (aggregate ys paths payouts_paths) ! j)
                \<and> float_le (band (aggregate ys paths payouts_paths) ! j) (t100 ! j)))"
proof -
  note ne = column_nonempty [OF assms(1), of j]
  have m: "float_le (percentile (column paths j) q1) (percentile (column paths j) q2)"
    if "0 \<le> q1" "q1 \<le> q2" "q2 \<le> 100" for q1 q2
    using ne that by (rule percentile_mono)
  show ?thesis
    using assms(2)
    by (simp add: aggregate_def Let_def percentiles_lookup percentile_axis0_nth m)
qed

lemma demo_bands:
  "p2 (aggregate [2026, 2027] demo_paths demo_paths) ! 0 = Some 104"
  "p10 (aggregate [2026, 2027] demo_paths demo_paths) ! 0 = Some 120"
  "p50 (aggregate [2026, 2027] demo_paths demo_paths) ! 0 = Some 200"
  "p90 (aggregate [2026, 2027] demo_paths demo_paths) ! 0 = Some 360"
  "p98 (aggregate [2026, 2027] demo_paths demo_paths) ! 0 = Some 392"
  by (simp_all add: aggregate_def percentile_axis0_def column_def percentile_def demo_paths_def)

theorem percentile_bands_ordered_witness:
  "demo_paths \<noteq> [] \<and> (0::nat) < length [2026, 2027 :: int]
   \<and> float_le (p2 (aggregate [2026, 2027] demo_paths demo_paths) ! 0)
               (p10 (aggregate [2026, 2027] demo_paths demo_paths) ! 0)
   \<and> p2 (aggregate [2026, 2027] demo_paths demo_paths) ! 0 = Some 104
   \<and> p10 (aggregate [2026, 2027] demo_paths demo_paths) ! 0 = Some 120
   \<and> p50 (aggregate [2026, 2027] demo_paths demo_paths) ! 0 = Some 200
   \<and> p90 (aggregate [2026, 2027] demo_paths demo_paths) ! 0 = Some 360
   \<and> p98 (aggregate [2026, 2027] demo_paths demo_paths) ! 0 = Some 392"
proof -
  have ne: "demo_paths \<noteq> []" by (simp add: demo_paths_def)
  have j: "(0::nat) < length [2026, 2027 :: int]" by simp
  from percentile_bands_ordered [OF ne j, of demo_paths] ne j show ?thesis
    by (simp only: demo_bands) simp
qed

section \<open>Properties of the loan evolution calculator\<close>

lemma sum_list_scaled:
  "sum_list (map snd (map (\<lambda>(person, v). (person, v * c)) loans)) = sum_list (map snd loans) * (c::real)"
  by (induction loans) (auto simp: algebra_simps)

lemma map_fst_adjust: "map fst (adjust k f d) = map fst d"
  by (induction d) (auto simp: adjust_def)

lemma map_of_adjust:
  "map_of (adjust k f d) person = (if person = k then map_option f (map_of d person) else map_of d person)"
  by (induction d) (auto simp: adjust_def)

lemma adjust_absent: "k \<notin> set (map fst d) \<Longrightarrow> adjust k f d = d"
  by (induction d) (auto simp: adjust_def)

lemma map_fst_subtract_rental_repayment:
  "map fst (subtract_rental_repayment rent year loans) = map fst loans"
  by (simp add: subtract_rental_repayment_def Let_def map_fst_adjust split: option.splits)

lemma contrib_map_fold_notin:
  "p \<notin> set (map name cs) \<Longrightarrow> fold (\<lambda>c m. m(name c \<mapsto> monthly_amount c)) cs m p = m p"
  by (induction cs arbitrary: m) auto

lemma contrib_map_distinct:
  "distinct (map name cs) \<Longrightarrow> c \<in> set cs \<Longrightarrow> 
     fold (\<lambda>c m. m(name c \<mapsto> monthly_amount c)) cs m (name c) = Some (monthly_amount c)"
proof (induction cs arbitrary: m)
  case Nil
  then show ?case by simp
next
  case (Cons x xs)
  show ?case
  proof (cases "c = x")
    case True
    have "name x \<notin> set (map name xs)" using Cons.prems by simp
    then have "fold (\<lambda>c m. m(name c \<mapsto> monthly_amount c)) xs (m(name x \<mapsto> monthly_amount x)) (name x)
        = (m(name x \<mapsto> monthly_amount x)) (name x)"
      by (rule contrib_map_fold_notin)
    then show ?thesis by (simp only: True fold_simps o_apply fun_upd_same)
  next
    case False
    with Cons show ?thesis by simp
  qed
qed

lemma sum_loan_monthly:
  assumes "distinct (map name cs)"
  shows "sum_list (map (\<lambda>c. loan_monthly end_y change_y factor (contrib_map cs) (name c) year) cs)
     = (if (case end_y of None \<Rightarrow> False | Some e \<Rightarrow> year \<ge> e) then 0
        else if (case change_y of None \<Rightarrow> False | Some c \<Rightarrow> year \<ge> c)
          then sum_list (map monthly_amount cs) * factor
        else sum_list (map monthly_amount cs))"
proof -
  have "map (\<lambda>c. loan_monthly end_y change_y factor (contrib_map cs) (name c) year) cs
     = map (\<lambda>c. if (case end_y of None \<Rightarrow> False | Some e \<Rightarrow> year \<ge> e) then 0
        else if (case change_y of None \<Rightarrow> False | Some c \<Rightarrow> year \<ge> c)
          then monthly_amount c * factor
        else monthly_amount c) cs"
    using assms by (intro map_cong refl) (simp add: loan_monthly_def contrib_map_def contrib_map_distinct)
  then show ?thesis
    by (simp only:) (simp add: sum_list_mult_const)
qed

lemma map_fst_add_contributions:
  "map fst (add_contributions end_y change_y factor cm year months loans) = map fst loans"
  by (induction loans) (auto simp: add_contributions_def)

lemma subtract_loan_repayment_Inr:
  "\<exists>loans'. subtract_loan_repayment mode pay year_idx loans = Inr loans'
      \<and> map fst loans' = map fst loans"
proof -
  have scaled: "map fst (map (\<lambda>(person, v). (person, v * c)) loans) = map fst loans" for c :: real
    by (induction loans) auto
  show ?thesis
    by (auto simp: subtract_loan_repayment_def truediv_def Let_def scaled split: option.splits)
qed

lemma loan_year_Inr:
  "\<exists>loans'. loan_year cm rent start_m pay mode end_y change_y factor y0 iy loans = Inr loans'
      \<and> map fst loans' = map fst loans"
proof -
  obtain i y where iy: "iy = (i, y)" by (cases iy)
  show ?thesis
    using subtract_loan_repayment_Inr [of mode pay i
        "subtract_rental_repayment rent y
           (add_contributions end_y change_y factor cm y (if y = y0 then 12 - start_m + 1 else 12) loans)"]
    by (simp add: iy loan_year_def Let_def map_fst_subtract_rental_repayment map_fst_add_contributions)
qed

lemma store_snapshot_eq:
  "distinct (map fst cur) \<Longrightarrow>
     store_snapshot cur ev
       = map (\<lambda>(k, h). case map_of cur k of None \<Rightarrow> (k, h) | Some v \<Rightarrow> (k, h @ [v])) ev"
proof (induction cur arbitrary: ev)
  case Nil
  then show ?case by (simp add: store_snapshot_def case_prod_beta)
next
  case (Cons pv cur)
  obtain p v where pv: "pv = (p, v)" by (cases pv)
  have notin: "map_of cur p = None" using Cons.prems by (simp add: pv map_of_eq_None_iff)
  have "store_snapshot (pv # cur) ev
      = store_snapshot cur (map (\<lambda>(k, h). if k = p then (k, h @ [v]) else (k, h)) ev)"
    by (simp add: store_snapshot_def pv)
  also have "\<dots> = map (\<lambda>(k, h). case map_of cur k of None \<Rightarrow> (k, h) | Some v \<Rightarrow> (k, h @ [v]))
                     (map (\<lambda>(k, h). if k = p then (k, h @ [v]) else (k, h)) ev)"
    using Cons.prems by (intro Cons.IH) simp
  also have "\<dots> = map (\<lambda>(k, h). case map_of (pv # cur) k of None \<Rightarrow> (k, h) | Some v \<Rightarrow> (k, h @ [v])) ev"
    by (auto simp: pv notin)
  finally show ?case .
qed

lemma store_snapshot_keys:
  "distinct (map fst cur) \<Longrightarrow> map fst (store_snapshot cur ev) = map fst ev"
  by (simp add: store_snapshot_eq) (induction ev, auto split: option.splits)

lemma store_snapshot_lengths:
  assumes "distinct (map fst cur)" and "map fst ev = map fst cur"
    and "\<forall>(k, h) \<in> set ev. length h = n"
  shows "\<forall>(k, h) \<in> set (store_snapshot cur ev). length h = Suc n"
proof -
  have "map_of cur k \<noteq> None" if "(k, h) \<in> set ev" for k h
  proof -
    from that have "k \<in> set (map fst ev)" by force
    then have "k \<in> fst ` set cur" using assms(2) by simp
    then show ?thesis by (simp add: map_of_eq_None_iff)
  qed
  then have present: "\<forall>(k, h) \<in> set ev. map_of cur k \<noteq> None" by blast
  show ?thesis
    unfolding store_snapshot_eq [OF assms(1)]
    using present assms(3) by (fastforce split: option.splits)
qed

lemma loan_loop_shape:
  assumes body: "\<And>iy loans. \<exists>loans'. body iy loans = Inr loans' \<and> map fst loans' = map fst loans"
  shows "distinct (map fst cur) \<Longrightarrow> map fst ev = map fst cur
     \<Longrightarrow> \<forall>(k, h) \<in> set ev. length h = n
     \<Longrightarrow> \<exists>ev'. loan_loop body ixs (cur, ev) = Inr ev' \<and> map fst ev' = map fst cur
            \<and> (\<forall>(k, h) \<in> set ev'. length h = n + length ixs)"
proof (induction ixs arbitrary: cur ev n)
  case Nil
  then show ?case by simp
next
  case (Cons iy ixs)
  obtain loans' where l: "body iy cur = Inr loans'" "map fst loans' = map fst cur"
    using body by blast
  have d: "distinct (map fst loans')" using Cons.prems(1) l(2) by simp
  have k: "map fst (store_snapshot loans' ev) = map fst loans'"
    using store_snapshot_keys [OF d] Cons.prems(2) l(2) by simp
  have len: "\<forall>(k, h) \<in> set (store_snapshot loans' ev). length h = Suc n"
    using store_snapshot_lengths [OF d _ Cons.prems(3)] Cons.prems(2) l(2) by simp
  from Cons.IH [OF d k len] l show ?case by simp
qed

lemma loan_loop_cong:
  assumes body: "\<And>iy loans. \<exists>loans'. body iy loans = Inr loans' \<and> map fst loans' = map fst loans"
    and same: "\<And>iy loans. map fst loans = ks \<Longrightarrow> body iy loans = body' iy loans"
  shows "map fst cur = ks \<Longrightarrow> loan_loop body ixs (cur, ev) = loan_loop body' ixs (cur, ev)"
proof (induction ixs arbitrary: cur ev)
  case Nil
  then show ?case by simp
next
  case (Cons iy ixs)
  obtain loans' where l: "body iy cur = Inr loans'" "map fst loans' = map fst cur"
    using body by blast
  have l': "body' iy cur = Inr loans'" using same [OF Cons.prems] l(1) by simp
  have "map fst loans' = ks" using l(2) Cons.prems by simp
  from Cons.IH [OF this] l l' show ?case by simp
qed

lemma contrib_fold_filter:
  "p \<in> ks \<Longrightarrow> m p = m' p \<Longrightarrow>
   fold (\<lambda>c m. m(name c \<mapsto> monthly_amount c)) (filter (\<lambda>c. name c \<in> ks) cs) m p
     = fold (\<lambda>c m. m(name c \<mapsto> monthly_amount c)) cs m' p"
proof (induction cs arbitrary: m m')
  case Nil
  then show ?case by simp
next
  case (Cons c cs)
  show ?case
  proof (cases "name c \<in> ks")
    case True
    have "(m(name c \<mapsto> monthly_amount c)) p = (m'(name c \<mapsto> monthly_amount c)) p"
      using Cons.prems(2) by simp
    from Cons.IH [where m = "m(name c \<mapsto> monthly_amount c)"
        and m' = "m'(name c \<mapsto> monthly_amount c)", OF Cons.prems(1) this] True
    show ?thesis
      by (simp only: filter.simps fold_simps o_apply if_True)
  next
    case False
    then have "m p = (m'(name c \<mapsto> monthly_amount c)) p"
      using Cons.prems by auto
    from Cons.IH [where m = m and m' = "m'(name c \<mapsto> monthly_amount c)",
        OF Cons.prems(1) this] False
    show ?thesis
      by (simp only: filter.simps fold_simps o_apply if_False)
  qed
qed

lemma contrib_map_filter:
  "p \<in> ks \<Longrightarrow> contrib_map (filter (\<lambda>c. name c \<in> ks) cs) p = contrib_map cs p"
  unfolding contrib_map_def by (rule contrib_fold_filter) simp_all

lemma add_contributions_cong:
  "(\<And>p. p \<in> set (map fst loans) \<Longrightarrow> cm p = cm' p) \<Longrightarrow>
     add_contributions end_y change_y factor cm year months loans
       = add_contributions end_y change_y factor cm' year months loans"
  unfolding add_contributions_def
  by (intro map_cong refl) (force simp: loan_monthly_def)

lemma loan_year_cong:
  assumes "\<And>p. p \<in> set (map fst loans) \<Longrightarrow> cm p = cm' p"
  shows "loan_year cm rent start_m pay mode end_y change_y factor y0 iy loans
       = loan_year cm' rent start_m pay mode end_y change_y factor y0 iy loans"
proof -
  have eq: "add_contributions end_y change_y factor cm year months loans
       = add_contributions end_y change_y factor cm' year months loans" for year months
    by (rule add_contributions_cong) (rule assms)
  show ?thesis
    unfolding loan_year_def by (cases iy) (simp add: eq)
qed

lemma map_fst_ledger_year: "map fst (ledger_year ev n) = map fst ev"
  by (induction ev) (auto simp: ledger_year_def)

lemma ledger_year_store_snapshot_old:
  assumes "distinct (map fst cur)" and "\<forall>(k, h) \<in> set ev. length h = m" and "j < m"
  shows "ledger_year (store_snapshot cur ev) j = ledger_year ev j"
  unfolding store_snapshot_eq [OF assms(1)] ledger_year_def
  using assms(2,3) by (auto simp: nth_append split: option.splits)

lemma map_of_rebuild:
  "distinct (map fst cur) \<Longrightarrow>
     map (\<lambda>k. (k, case map_of cur k of None \<Rightarrow> d k | Some v \<Rightarrow> v)) (map fst cur) = cur"
proof (induction cur)
  case Nil
  then show ?case by simp
next
  case (Cons kv cur)
  obtain k v where kv: "kv = (k, v)" by (cases kv)
  have "map (\<lambda>k'. (k', case map_of (kv # cur) k' of None \<Rightarrow> d k' | Some v \<Rightarrow> v)) (map fst cur)
      = map (\<lambda>k'. (k', case map_of cur k' of None \<Rightarrow> d k' | Some v \<Rightarrow> v)) (map fst cur)"
    using Cons.prems by (intro map_cong refl) (auto simp: kv)
  with Cons show ?case by (simp add: kv)
qed

lemma ledger_year_store_snapshot_new:
  assumes "distinct (map fst cur)" and "map fst ev = map fst cur"
    and "\<forall>(k, h) \<in> set ev. length h = m"
  shows "ledger_year (store_snapshot cur ev) m = cur"
proof -
  have "ledger_year (store_snapshot cur ev) m
      = map (\<lambda>(k, h). (k, case map_of cur k of None \<Rightarrow> h ! m | Some v \<Rightarrow> v)) ev"
    unfolding store_snapshot_eq [OF assms(1)] ledger_year_def
    using assms(3) by (auto split: option.splits)
  also have "\<dots> = map (\<lambda>(k, h). (k, case map_of cur k of None \<Rightarrow> 0 | Some v \<Rightarrow> v)) ev"
  proof (intro map_cong refl)
    fix kh assume kh: "kh \<in> set ev"
    obtain k h where e: "kh = (k, h)" by (cases kh)
    have "k \<in> set (map fst ev)" using kh e by force
    then have "k \<in> fst ` set cur" using assms(2) by simp
    then have "map_of cur k \<noteq> None" by (simp add: map_of_eq_None_iff)
    then show "(case kh of (k, h) \<Rightarrow> (k, case map_of cur k of None \<Rightarrow> h ! m | Some v \<Rightarrow> v))
        = (case kh of (k, h) \<Rightarrow> (k, case map_of cur k of None \<Rightarrow> 0 | Some v \<Rightarrow> v))"
      by (auto simp: e)
  qed
  also have "\<dots> = map (\<lambda>k. (k, case map_of cur k of None \<Rightarrow> 0 | Some v \<Rightarrow> v)) (map fst ev)"
    by (simp add: case_prod_beta comp_def)
  also have "\<dots> = cur"
    unfolding assms(2) by (rule map_of_rebuild [OF assms(1)])
  finally show ?thesis .
qed

lemma loan_loop_ledger:
  assumes body: "\<And>iy loans. \<exists>loans'. body iy loans = Inr loans' \<and> map fst loans' = map fst loans"
  shows "distinct (map fst cur) \<Longrightarrow> map fst ev0 = map fst cur
     \<Longrightarrow> \<forall>(k, h) \<in> set ev0. length h = m
     \<Longrightarrow> \<exists>ev. loan_loop body ixs (cur, ev0) = Inr ev \<and> map fst ev = map fst cur
            \<and> (\<forall>(k, h) \<in> set ev. length h = m + length ixs)
            \<and> (\<forall>j < m. ledger_year ev j = ledger_year ev0 j)
            \<and> (\<forall>i < length ixs.
                  body (ixs ! i) (if i = 0 then cur else ledger_year ev (m + i - 1))
                    = Inr (ledger_year ev (m + i)))"
proof (induction ixs arbitrary: cur ev0 m)
  case Nil
  then show ?case by simp
next
  case (Cons iy ixs)
  obtain cur' where l: "body iy cur = Inr cur'" "map fst cur' = map fst cur"
    using body by blast
  let ?ev1 = "store_snapshot cur' ev0"
  have d: "distinct (map fst cur')" using Cons.prems(1) l(2) by simp
  have keys0: "map fst ev0 = map fst cur'" using Cons.prems(2) l(2) by simp
  have k: "map fst ?ev1 = map fst cur'"
    using store_snapshot_keys [OF d] keys0 by simp
  have len: "\<forall>(k, h) \<in> set ?ev1. length h = Suc m"
    by (rule store_snapshot_lengths [OF d keys0 Cons.prems(3)])
  have old: "ledger_year ?ev1 j = ledger_year ev0 j" if "j < m" for j
    by (rule ledger_year_store_snapshot_old [OF d Cons.prems(3) that])
  have new: "ledger_year ?ev1 m = cur'"
    by (rule ledger_year_store_snapshot_new [OF d keys0 Cons.prems(3)])
  obtain ev where ev: "loan_loop body ixs (cur', ?ev1) = Inr ev" "map fst ev = map fst cur'"
    "\<forall>(k, h) \<in> set ev. length h = Suc m + length ixs"
    "\<forall>j < Suc m. ledger_year ev j = ledger_year ?ev1 j"
    "\<forall>i < length ixs. body (ixs ! i) (if i = 0 then cur' else ledger_year ev (Suc m + i - 1))
        = Inr (ledger_year ev (Suc m + i))"
    using Cons.IH [OF d k len] by blast
  have evm: "ledger_year ev m = cur'" using ev(4) new by simp
  have steps: "body ((iy # ixs) ! i) (if i = 0 then cur else ledger_year ev (m + i - 1))
      = Inr (ledger_year ev (m + i))" if "i < length (iy # ixs)" for i
  proof (cases i)
    case 0
    then show ?thesis using l(1) evm by simp
  next
    case (Suc i')
    then have "i' < length ixs" using that by simp
    with ev(5) have "body (ixs ! i') (if i' = 0 then cur' else ledger_year ev (Suc m + i' - 1))
        = Inr (ledger_year ev (Suc m + i'))" by blast
    moreover have "(if i' = 0 then cur' else ledger_year ev (Suc m + i' - 1))
        = ledger_year ev (m + i')"
      using evm by (cases i') simp_all
    ultimately show ?thesis by (simp add: Suc)
  qed
  have "loan_loop body (iy # ixs) (cur, ev0) = Inr ev" using l(1) ev(1) by simp
  moreover have "map fst ev = map fst cur" using ev(2) l(2) by simp
  moreover have "\<forall>(k, h) \<in> set ev. length h = m + length (iy # ixs)" using ev(3) by simp
  moreover have "\<forall>j < m. ledger_year ev j = ledger_year ev0 j" using ev(4) old by simp
  ultimately show ?case using steps by blast
qed

lemma calculator_years:
  assumes "distinct (map fst loans0)"
  shows "\<exists>ev. calculate_loan_evolution loans0 cs ys rent start_m pay mode end_y change_y factor = Inr ev
     \<and> map fst ev = map fst loans0
     \<and> (\<forall>n < length ys.
          map fst (loans_before loans0 ev n) = map fst loans0
          \<and> loan_year (contrib_map cs) rent start_m pay mode end_y change_y factor (ys ! 0)
               (n, ys ! n) (loans_before loans0 ev n) = Inr (ledger_year ev n))"
proof (cases ys)
  case Nil
  then show ?thesis by (simp add: calculate_loan_evolution_def case_prod_beta comp_def)
next
  case (Cons y0 rest)
  let ?ev0 = "map (\<lambda>(person, v). (person, []::real list)) loans0"
  let ?body = "loan_year (contrib_map cs) rent start_m pay mode end_y change_y factor y0"
  have k0: "map fst ?ev0 = map fst loans0" by (induction loans0) auto
  have l0: "\<forall>(k, h) \<in> set ?ev0. length h = 0" by auto
  obtain ev where ev: "loan_loop ?body (enumerate 0 ys) (loans0, ?ev0) = Inr ev"
    "map fst ev = map fst loans0"
    "\<forall>i < length (enumerate 0 ys).
        ?body (enumerate 0 ys ! i) (if i = 0 then loans0 else ledger_year ev (0 + i - 1))
          = Inr (ledger_year ev (0 + i))"
    using loan_loop_ledger [of ?body loans0 ?ev0 0 "enumerate 0 ys", OF loan_year_Inr assms k0 l0]
    by blast
  have y0: "ys ! 0 = y0" by (simp add: Cons)
  have calc: "calculate_loan_evolution loans0 cs ys rent start_m pay mode end_y change_y factor = Inr ev"
    using ev(1) by (simp add: calculate_loan_evolution_def Cons [symmetric] Let_def) (simp add: Cons)
  have years: "map fst (loans_before loans0 ev n) = map fst loans0
      \<and> loan_year (contrib_map cs) rent start_m pay mode end_y change_y factor (ys ! 0)
               (n, ys ! n) (loans_before loans0 ev n) = Inr (ledger_year ev n)"
    if "n < length ys" for n
  proof -
    have "?body (enumerate 0 ys ! n) (if n = 0 then loans0 else ledger_year ev (0 + n - 1))
          = Inr (ledger_year ev (0 + n))"
      using ev(3) that by simp
    then have "?body (n, ys ! n) (loans_before loans0 ev n) = Inr (ledger_year ev n)"
      using that by (cases n) (simp_all add: nth_enumerate_eq loans_before_def)
    moreover have "map fst (loans_before loans0 ev n) = map fst loans0"
      by (simp add: loans_before_def map_fst_ledger_year ev(2))
    ultimately show ?thesis by (simp add: y0)
  qed
  from calc ev(2) years show ?thesis by blast
qed

lemma loan_year_steps:
  "loan_year cm rent start_m pay mode end_y change_y factor y0 (year_idx, year) loans
     = subtract_loan_repayment mode pay year_idx
         (after_step_2 end_y change_y factor cm rent start_m y0 year loans)"
  by (simp add: loan_year_def after_step_2_def after_step_1_def Let_def)

lemma sum_add_contributions:
  assumes "distinct (map name cs)" and "map fst loans = map name cs"
  shows "sum_list (map snd (add_contributions end_y change_y factor (contrib_map cs) year months loans))
     = sum_list (map snd loans)
       + sum_list (map (\<lambda>c. loan_monthly end_y change_y factor (contrib_map cs) (name c) year) cs)
         * real_of_int months"
proof -
  have "sum_list (map snd (add_contributions end_y change_y factor cm year months loans))
     = sum_list (map snd loans)
       + sum_list (map (\<lambda>p. loan_monthly end_y change_y factor cm p year) (map fst loans))
         * real_of_int months" for cm
    by (induction loans) (auto simp: add_contributions_def algebra_simps)
  then show ?thesis
    unfolding assms(2) by (simp add: comp_def)
qed

lemma add_contributions_stopped:
  assumes "e \<le> year" and "c \<le> year"
  shows "add_contributions (Some e) (Some c) factor cm year months loans = loans"
  using assms by (induction loans) (auto simp: add_contributions_def loan_monthly_def)

text \<open>
  Claim C4. In withdrawal mode "loan", for every call of the calculator on a dictionary
  of starting loans and every year whose median withdrawal is positive: when the total
  of the loans after steps 1 and 2 is positive, the balances recorded for the year are
  those loans, each multiplied by max(0, (total - withdrawal) / total), and their total
  is at most the total before the step and not negative; when the total is zero or
  negative, the recorded balances are the loans after steps 1 and 2, unchanged. The
  call returns its ledger: no division fails.
\<close>

theorem loan_repayment_proportional:
  assumes "distinct (map fst loans0)" and "mode = ''loan''" and "pay = Some ps"
  shows "\<exists>ev. calculate_loan_evolution loans0 cs ys rent start_m pay mode end_y change_y factor = Inr ev
    \<and> (\<forall>n < length ys. n < length ps \<longrightarrow> 0 < ps ! n \<longrightarrow>
         (0 < sum_list (map snd (after_step_2 end_y change_y factor (contrib_map cs) rent start_m
                                   (ys ! 0) (ys ! n) (loans_before loans0 ev n)))
            \<longrightarrow> ledger_year ev n
                  = map (\<lambda>(person, v).
                      (person, v * max 0
                         ((sum_list (map snd (after_step_2 end_y change_y factor (contrib_map cs)
                                     rent start_m (ys ! 0) (ys ! n) (loans_before loans0 ev n)))
                           - ps ! n)
                          / sum_list (map snd (after_step_2 end_y change_y factor (contrib_map cs)
                                     rent start_m (ys ! 0) (ys ! n) (loans_before loans0 ev n))))))
                      (after_step_2 end_y change_y factor (contrib_map cs) rent start_m
                         (ys ! 0) (ys ! n) (loans_before loans0 ev n))
                \<and> sum_list (map snd (ledger_year ev n))
                    \<le> sum_list (map snd (after_step_2 end_y change_y factor (contrib_map cs) rent
                                    start_m (ys ! 0) (ys ! n) (loans_before loans0 ev n)))
                \<and> 0 \<le> sum_list (map snd (ledger_year ev n)))
         \<and> (sum_list (map snd (after_step_2 end_y change_y factor (contrib_map cs) rent start_m
                                   (ys ! 0) (ys ! n) (loans_before loans0 ev n))) \<le> 0
            \<longrightarrow> ledger_year ev n
                  = after_step_2 end_y change_y factor (contrib_map cs) rent start_m
                      (ys ! 0) (ys ! n) (loans_before loans0 ev n)))"
proof -
  obtain ev where ev:
    "calculate_loan_evolution loans0 cs ys rent start_m pay mode end_y change_y factor = Inr ev"
    "\<forall>n < length ys.
        loan_year (contrib_map cs) rent start_m pay mode end_y change_y factor (ys ! 0)
          (n, ys ! n) (loans_before loans0 ev n) = Inr (ledger_year ev n)"
    using calculator_years [of loans0 cs ys rent start_m pay mode end_y change_y factor, OF assms(1)]
    by blast
  have year: "(0 < sum_list (map snd a2)
            \<longrightarrow> ledger_year ev n
                  = map (\<lambda>(person, v).
                      (person, v * max 0 ((sum_list (map snd a2) - ps ! n) / sum_list (map snd a2)))) a2
                \<and> sum_list (map snd (ledger_year ev n)) \<le> sum_list (map snd a2)
                \<and> 0 \<le> sum_list (map snd (ledger_year ev n)))
         \<and> (sum_list (map snd a2) \<le> 0 \<longrightarrow> ledger_year ev n = a2)"
    if n: "n < length ys" "n < length ps" "0 < ps ! n"
      and a2: "a2 = after_step_2 end_y change_y factor (contrib_map cs) rent start_m
                      (ys ! 0) (ys ! n) (loans_before loans0 ev n)"
    for n a2
  proof -
    have rec: "subtract_loan_repayment mode pay n a2 = Inr (ledger_year ev n)"
      using ev(2) n(1) unfolding a2 loan_year_steps by blast
    have ne: "ps \<noteq> []" using n(2) by auto
    let ?T = "sum_list (map snd a2)"
    let ?f = "max 0 ((?T - ps ! n) / ?T)"
    have step: "ledger_year ev n = map (\<lambda>(person, v). (person, v * ?f)) a2" if "0 < ?T"
      using rec that assms(2,3) n(2,3) ne
      by (simp add: subtract_loan_repayment_def truediv_def Let_def)
    have skip: "ledger_year ev n = a2" if "?T \<le> 0"
      using rec that assms(2,3) n(2,3) ne by (simp add: subtract_loan_repayment_def Let_def)
    have bounds: "?T * ?f \<le> ?T \<and> 0 \<le> ?T * ?f" if T: "0 < ?T"
    proof -
      have "(?T - ps ! n) / ?T \<le> 1" using T n(3) by (simp add: field_simps)
      then have "?f \<le> 1" and "0 \<le> ?f" by simp_all
      then show ?thesis using T by (simp add: mult_left_le)
    qed
    show ?thesis
    proof (intro conjI impI)
      assume T: "0 < ?T"
      show "ledger_year ev n = map (\<lambda>(person, v). (person, v * ?f)) a2" by (rule step [OF T])
      show "sum_list (map snd (ledger_year ev n)) \<le> ?T"
        unfolding step [OF T] sum_list_scaled using bounds [OF T] by simp
      show "0 \<le> sum_list (map snd (ledger_year ev n))"
        unfolding step [OF T] sum_list_scaled using bounds [OF T] by simp
    next
      assume "?T \<le> 0"
      then show "ledger_year ev n = a2" by (rule skip)
    qed
  qed
  show ?thesis
    using ev(1) year by blast
qed

lemma demo_ledger_run:
  "calculate_loan_evolution demo_loans demo_contribs [2026, 2027] (Some demo_rental_included) 7
        (Some [0, 1850]) ''loan'' None None 1 = Inr demo_ledger"
  by (simp add: calculate_loan_evolution_def demo_loans_def demo_contribs_def
      demo_rental_included_def demo_rental_def demo_ledger_def
      loan_year_def contrib_map_def add_contributions_def loan_monthly_def
      subtract_rental_repayment_def adjust_def subtract_loan_repayment_def truediv_def
      store_snapshot_def)

lemma demo_ledger_steps:
  "after_step_1 None None 1 (contrib_map demo_contribs) 7 2026 2026 demo_loans
     = [(''Mart'', 6100), (''Kerli'', 4400)]"
  "after_step_2 None None 1 (contrib_map demo_contribs) (Some demo_rental_included) 7 2026 2026
      demo_loans = [(''Mart'', 1100), (''Kerli'', -600)]"
  "after_step_2 None None 1 (contrib_map demo_contribs) (Some demo_rental_included) 7 2026 2027
      (ledger_year demo_ledger 0) = [(''Mart'', 11300), (''Kerli'', 7200)]"
  "after_step_2 None None 1 (contrib_map demo_contribs) (Some demo_rental_included) 7 2026 2027
      [(''Mart'', 1100), (''Kerli'', -600)] = [(''Mart'', 11300), (''Kerli'', 7200)]"
  "ledger_year demo_ledger 0 = [(''Mart'', 1100), (''Kerli'', -600)]"
  "ledger_year demo_ledger 1 = [(''Mart'', 10170), (''Kerli'', 6480)]"
  by (simp_all add: after_step_1_def after_step_2_def demo_loans_def demo_contribs_def
      demo_rental_included_def demo_rental_def demo_ledger_def ledger_year_def
      contrib_map_def add_contributions_def loan_monthly_def
      subtract_rental_repayment_def adjust_def)

theorem loan_repayment_proportional_witness:
  "distinct (map fst demo_loans)
   \<and> calculate_loan_evolution demo_loans demo_contribs [2026, 2027] (Some demo_rental_included) 7
        (Some [0, 1850]) ''loan'' None None 1 = Inr demo_ledger
   \<and> after_step_2 None None 1 (contrib_map demo_contribs) (Some demo_rental_included) 7 2026 2027
        (ledger_year demo_ledger 0) = [(''Mart'', 11300), (''Kerli'', 7200)]
   \<and> ledger_year demo_ledger 1 = [(''Mart'', 11300 * 0.9), (''Kerli'', 7200 * 0.9)]"
proof -
  have d: "distinct (map fst demo_loans)" by (simp add: demo_loans_def)
  have evaluated: "?thesis"
    unfolding demo_ledger_run demo_ledger_steps using d by simp
  from loan_repayment_proportional [OF d refl refl, of demo_contribs "[2026, 2027]" "Some demo_rental_included" 7 "[0, 1850]"
      None None 1]
  show ?thesis by - (rule evaluated)
qed

text \<open>
  Claim C6 as stated fails. With a financed-by-pool rental configuration whose inclusion
  flag is off, the loans of the two mortgage-share participants are not reduced in the
  sale year.
\<close>

theorem rental_not_included_no_loan_reduction:
  "sell demo_rental \<and> sale_year demo_rental = 2026
   \<and> subtract_rental_repayment (Some demo_rental) 2026 [(''Mart'', 20000), (''Kerli'', 15000)]
       = [(''Mart'', 20000), (''Kerli'', 15000)]"
  by (simp add: subtract_rental_repayment_def demo_rental_def)

text \<open>
  Claim C6, amended. For every call of the calculator with a rental configuration whose
  inclusion flag and financed-by-pool flag are both set, in every year the balances that
  step 3 works on, and from which the year's recorded balances result, are the balances
  after the contributions of step 1 with one change: in the year equal to the sale year
  the loan of the participant named Mart is reduced by the first mortgage share and the
  loan of the participant named Kerli by the second. A participant of that name who is
  absent from the loans is skipped without an error, and the balances of all other
  participants, as well as the set and order of the participants, are left as they were.
\<close>

theorem mortgage_shares_reduce_loans:
  assumes "distinct (map fst loans0)" and "rent = Some r" and "include r" and "sell r"
  shows "\<exists>ev. calculate_loan_evolution loans0 cs ys rent start_m pay mode end_y change_y factor = Inr ev
    \<and> (\<forall>n < length ys.
         subtract_loan_repayment mode pay n
           (after_step_2 end_y change_y factor (contrib_map cs) rent start_m (ys ! 0) (ys ! n)
              (loans_before loans0 ev n)) = Inr (ledger_year ev n)
         \<and> map fst (after_step_2 end_y change_y factor (contrib_map cs) rent start_m (ys ! 0) (ys ! n)
                      (loans_before loans0 ev n))
             = map fst (after_step_1 end_y change_y factor (contrib_map cs) start_m (ys ! 0) (ys ! n)
                      (loans_before loans0 ev n))
         \<and> (\<forall>person.
               map_of (after_step_2 end_y change_y factor (contrib_map cs) rent start_m (ys ! 0) (ys ! n)
                         (loans_before loans0 ev n)) person
                 = (if ys ! n = sale_year r \<and> person = ''Mart''
                      then map_option (\<lambda>v. v - mart_share r)
                             (map_of (after_step_1 end_y change_y factor (contrib_map cs) start_m
                                        (ys ! 0) (ys ! n) (loans_before loans0 ev n)) person)
                    else if ys ! n = sale_year r \<and> person = ''Kerli''
                      then map_option (\<lambda>v. v - kerli_share r)
                             (map_of (after_step_1 end_y change_y factor (contrib_map cs) start_m
                                        (ys ! 0) (ys ! n) (loans_before loans0 ev n)) person)
                    else map_of (after_step_1 end_y change_y factor (contrib_map cs) start_m
                                   (ys ! 0) (ys ! n) (loans_before loans0 ev n)) person)))"
proof -
  obtain ev where ev:
    "calculate_loan_evolution loans0 cs ys rent start_m pay mode end_y change_y factor = Inr ev"
    "\<forall>n < length ys.
        loan_year (contrib_map cs) rent start_m pay mode end_y change_y factor (ys ! 0)
          (n, ys ! n) (loans_before loans0 ev n) = Inr (ledger_year ev n)"
    using calculator_years [of loans0 cs ys rent start_m pay mode end_y change_y factor, OF assms(1)]
    by blast
  have a: "(if k \<in> set (map fst d) then adjust k f d else d) = adjust k f d"
    for k f and d :: "(string \<times> real) list"
    by (simp add: adjust_absent)
  have sale: "subtract_rental_repayment rent year loans
      = adjust ''Kerli'' (\<lambda>v. v - kerli_share r) (adjust ''Mart'' (\<lambda>v. v - mart_share r) loans)"
    if "year = sale_year r" for year loans
    using that assms(2-4) unfolding subtract_rental_repayment_def Let_def a by simp
  have other: "subtract_rental_repayment rent year loans = loans" if "year \<noteq> sale_year r"
    for year loans
    using that assms(2-4) by (simp add: subtract_rental_repayment_def)
  have step2: "map_of (subtract_rental_repayment rent year loans) person
      = (if year = sale_year r \<and> person = ''Mart''
           then map_option (\<lambda>v. v - mart_share r) (map_of loans person)
         else if year = sale_year r \<and> person = ''Kerli''
           then map_option (\<lambda>v. v - kerli_share r) (map_of loans person)
         else map_of loans person)" for year loans person
    by (cases "year = sale_year r") (simp_all add: sale other map_of_adjust)
  show ?thesis
    using ev unfolding loan_year_steps
    by (intro exI [of _ ev])
       (simp add: after_step_2_def [of end_y change_y factor "contrib_map cs" rent]
          map_fst_subtract_rental_repayment step2)
qed

theorem mortgage_shares_reduce_loans_witness:
  "distinct (map fst demo_loans) \<and> include demo_rental_included \<and> sell demo_rental_included
   \<and> sale_year demo_rental_included = 2026
   \<and> calculate_loan_evolution demo_loans demo_contribs [2026, 2027] (Some demo_rental_included) 7
        (Some [0, 1850]) ''loan'' None None 1 = Inr demo_ledger
   \<and> after_step_1 None None 1 (contrib_map demo_contribs) 7 2026 2026 demo_loans
       = [(''Mart'', 6100), (''Kerli'', 4400)]
   \<and> after_step_2 None None 1 (contrib_map demo_contribs) (Some demo_rental_included) 7 2026 2026
        demo_loans = [(''Mart'', 6100 - 5000), (''Kerli'', 4400 - 5000)]
   \<and> ledger_year demo_ledger 0 = [(''Mart'', 1100), (''Kerli'', -600)]"
proof -
  have d: "distinct (map fst demo_loans)" by (simp add: demo_loans_def)
  have i: "include demo_rental_included" and s: "sell demo_rental_included"
    and y: "sale_year demo_rental_included = 2026"
    by (simp_all add: demo_rental_included_def demo_rental_def)
  have evaluated: "?thesis"
    unfolding demo_ledger_run demo_ledger_steps using d i s y by simp
  from mortgage_shares_reduce_loans [OF d refl i s, of demo_contribs "[2026, 2027]" 7 "Some [0, 1850]" "''loan''"
      None None 1]
  show ?thesis by - (rule evaluated)
qed

text \<open>
  Claim C7. The path engine and the loan calculator apply one contribution policy to the
  same year. In every simulated year the year-end balance of the engine is that of an
  engine without contributors plus the policy's amount for that year, added in every
  simulated month and compounded with the returns of that and the later months; in every
  year of the calculator's run, that same amount times the number of active months is
  what step 1 adds to the total of the loans, when the participants of the loans are the
  contributors. In a year at or past both the stop year and the change year the amount is
  0, stopping wins over scaling: the engine behaves as if there were no contributors, and
  step 1 of the calculator leaves every loan as it was.
\<close>

theorem contribution_policy_consistent:
  assumes "distinct (map fst loans0)"
  shows "simulate_year normal self a year (b, g)
       = (fst (simulate_year normal (self\<lparr>contributions := []\<rparr>) a year (b, g))
            + compounded_flows normal self (\<lambda>m. current_monthly_contrib self a year)
                [first_month a year..11] (0, g),
          snd (simulate_year normal (self\<lparr>contributions := []\<rparr>) a year (b, g)))
   \<and> (contribution_end_year a = Some e \<and> contribution_change_year a = Some c
        \<and> e \<le> year \<and> c \<le> year
        \<longrightarrow> current_monthly_contrib self a year = 0
          \<and> simulate_year normal self a year (b, g)
              = simulate_year normal (self\<lparr>contributions := []\<rparr>) a year (b, g))
   \<and> (\<exists>ev. calculate_loan_evolution loans0 (contributions self) ys rent start_m pay mode
               (contribution_end_year a) (contribution_change_year a)
               (contribution_change_factor a) = Inr ev
         \<and> (\<forall>n < length ys.
              subtract_loan_repayment mode pay n
                (subtract_rental_repayment rent (ys ! n)
                   (after_step_1 (contribution_end_year a) (contribution_change_year a)
                      (contribution_change_factor a) (contrib_map (contributions self)) start_m
                      (ys ! 0) (ys ! n) (loans_before loans0 ev n)))
                = Inr (ledger_year ev n)
              \<and> (contribution_end_year a = Some e \<and> contribution_change_year a = Some c
                   \<and> e \<le> ys ! n \<and> c \<le> ys ! n
                   \<longrightarrow> after_step_1 (contribution_end_year a) (contribution_change_year a)
                         (contribution_change_factor a) (contrib_map (contributions self)) start_m
                         (ys ! 0) (ys ! n) (loans_before loans0 ev n)
                       = loans_before loans0 ev n)
              \<and> (map fst loans0 = map name (contributions self)
                   \<longrightarrow> sum_list (map snd
                         (after_step_1 (contribution_end_year a) (contribution_change_year a)
                            (contribution_change_factor a) (contrib_map (contributions self))
                            start_m (ys ! 0) (ys ! n) (loans_before loans0 ev n)))
                       = sum_list (map snd (loans_before loans0 ev n))
                         + current_monthly_contrib self a (ys ! n)
                           * real_of_int (if ys ! n = ys ! 0 then 12 - start_m + 1 else 12))))"
proof (intro conjI impI)
  show "simulate_year normal self a year (b, g)
       = (fst (simulate_year normal (self\<lparr>contributions := []\<rparr>) a year (b, g))
            + compounded_flows normal self (\<lambda>m. current_monthly_contrib self a year)
                [first_month a year..11] (0, g),
          snd (simulate_year normal (self\<lparr>contributions := []\<rparr>) a year (b, g)))"
    by (rule simulate_year_extra_flow)
       (rule month_flows_contributions, simp_all add: monthly_return_def monthly_vol_def)
next
  assume h: "contribution_end_year a = Some e \<and> contribution_change_year a = Some c
        \<and> e \<le> year \<and> c \<le> year"
  then show zero: "current_monthly_contrib self a year = 0"
    by (simp add: current_monthly_contrib_def)
  show "simulate_year normal self a year (b, g)
      = simulate_year normal (self\<lparr>contributions := []\<rparr>) a year (b, g)"
    using h by (intro simulate_year_contrib) (simp_all add: current_monthly_contrib_def)
next
  let ?ey = "contribution_end_year a" and ?cy = "contribution_change_year a"
  let ?f = "contribution_change_factor a" and ?cs = "contributions self"
  obtain ev where ev:
    "calculate_loan_evolution loans0 ?cs ys rent start_m pay mode ?ey ?cy ?f = Inr ev"
    "\<forall>n < length ys. map fst (loans_before loans0 ev n) = map fst loans0
        \<and> loan_year (contrib_map ?cs) rent start_m pay mode ?ey ?cy ?f (ys ! 0)
          (n, ys ! n) (loans_before loans0 ev n) = Inr (ledger_year ev n)"
    using calculator_years [of loans0 ?cs ys rent start_m pay mode ?ey ?cy ?f, OF assms(1)]
    by blast
  have stopped: "after_step_1 ?ey ?cy ?f (contrib_map ?cs) start_m (ys ! 0) (ys ! n)
        (loans_before loans0 ev n) = loans_before loans0 ev n"
    if "?ey = Some e \<and> ?cy = Some c \<and> e \<le> ys ! n \<and> c \<le> ys ! n" for n
    using that by (simp add: after_step_1_def add_contributions_stopped)
  have total: "sum_list (map snd (after_step_1 ?ey ?cy ?f (contrib_map ?cs) start_m (ys ! 0) (ys ! n)
          (loans_before loans0 ev n)))
      = sum_list (map snd (loans_before loans0 ev n))
        + current_monthly_contrib self a (ys ! n)
          * real_of_int (if ys ! n = ys ! 0 then 12 - start_m + 1 else 12)"
    if names: "map fst loans0 = map name ?cs" and n: "n < length ys" for n
  proof -
    have d: "distinct (map name ?cs)" using assms names by simp
    have k: "map fst (loans_before loans0 ev n) = map name ?cs" using ev(2) n names by simp
    show ?thesis
      unfolding after_step_1_def sum_add_contributions [OF d k] sum_loan_monthly [OF d]
      by (simp add: current_monthly_contrib_def)
  qed
  show "\<exists>ev. calculate_loan_evolution loans0 ?cs ys rent start_m pay mode ?ey ?cy ?f = Inr ev
         \<and> (\<forall>n < length ys.
              subtract_loan_repayment mode pay n
                (subtract_rental_repayment rent (ys ! n)
                   (after_step_1 ?ey ?cy ?f (contrib_map ?cs) start_m
                      (ys ! 0) (ys ! n) (loans_before loans0 ev n)))
                = Inr (ledger_year ev n)
              \<and> (?ey = Some e \<and> ?cy = Some c \<and> e \<le> ys ! n \<and> c \<le> ys ! n
                   \<longrightarrow> after_step_1 ?ey ?cy ?f (contrib_map ?cs) start_m
                         (ys ! 0) (ys ! n) (loans_before loans0 ev n)
                       = loans_before loans0 ev n)
              \<and> (map fst loans0 = map name ?cs
                   \<longrightarrow> sum_list (map snd
                         (after_step_1 ?ey ?cy ?f (contrib_map ?cs)
                            start_m (ys ! 0) (ys ! n) (loans_before loans0 ev n)))
                       = sum_list (map snd (loans_before loans0 ev n))
                         + current_monthly_contrib self a (ys ! n)
                           * real_of_int (if ys ! n = ys ! 0 then 12 - start_m + 1 else 12)))"
    using ev stopped total
    unfolding loan_year_steps after_step_2_def
    by (intro exI [of _ ev]) blast
qed

lemma demo_policy_run:
  "calculate_loan_evolution demo_loans demo_contribs [2026, 2027] None 7 None ''dividend''
      (Some 2027) (Some 2027) 0.5 = Inr [(''Mart'', [6100, 6100]), (''Kerli'', [4400, 4400])]"
  by (simp add: calculate_loan_evolution_def demo_loans_def demo_contribs_def
      loan_year_def contrib_map_def add_contributions_def loan_monthly_def
      subtract_rental_repayment_def subtract_loan_repayment_def store_snapshot_def)

lemma demo_policy_values:
  "current_monthly_contrib (demo_simulator\<lparr>contributions := demo_contribs\<rparr>) demo_policy_args 2026
     = 1500"
  "current_monthly_contrib (demo_simulator\<lparr>contributions := demo_contribs\<rparr>) demo_policy_args 2027
     = 0"
  "simulate_year flat_sampler (demo_simulator\<lparr>contributions := demo_contribs\<rparr>) demo_policy_args
      2026 (1000, ()) = (2500, 0, ())"
  by (simp_all add: current_monthly_contrib_def demo_simulator_def demo_contribs_def
      demo_policy_args_def demo_args_def simulate_year_def year_withdrawal_budget_def
      month_flows_def flat_sampler_def)

theorem contribution_policy_consistent_witness:
  "distinct (map fst demo_loans)
   \<and> map fst demo_loans = map name (contributions (demo_simulator\<lparr>contributions := demo_contribs\<rparr>))
   \<and> contribution_end_year demo_policy_args = Some 2027
   \<and> contribution_change_year demo_policy_args = Some 2027
   \<and> current_monthly_contrib (demo_simulator\<lparr>contributions := demo_contribs\<rparr>) demo_policy_args 2026
       = 1500
   \<and> current_monthly_contrib (demo_simulator\<lparr>contributions := demo_contribs\<rparr>) demo_policy_args 2027
       = 0
   \<and> simulate_year flat_sampler (demo_simulator\<lparr>contributions := demo_contribs\<rparr>) demo_policy_args
        2026 (1000, ()) = (2500, 0, ())
   \<and> calculate_loan_evolution demo_loans demo_contribs [2026, 2027] None 7 None ''dividend''
        (Some 2027) (Some 2027) 0.5 = Inr [(''Mart'', [6100, 6100]), (''Kerli'', [4400, 4400])]"
proof -
  have d: "distinct (map fst demo_loans)" by (simp add: demo_loans_def)
  have n: "map fst demo_loans
      = map name (contributions (demo_simulator\<lparr>contributions := demo_contribs\<rparr>))"
    by (simp add: demo_loans_def demo_contribs_def)
  have p: "contribution_end_year demo_policy_args = Some 2027"
    "contribution_change_year demo_policy_args = Some 2027"
    by (simp_all add: demo_policy_args_def)
  have evaluated: "?thesis"
    unfolding demo_policy_values using d n p demo_policy_run by simp
  from contribution_policy_consistent [OF d, of flat_sampler
      "demo_simulator\<lparr>contributions := demo_contribs\<rparr>" demo_policy_args 2027 1000 "()"
      2027 2027 "[2026, 2027]" None 7 None "''dividend''"]
  show ?thesis by - (rule evaluated)
qed

text \<open>
  Claim C10. For every call of the loan evolution calculator on a dictionary of starting
  loans, the call returns a mapping with exactly the keys of the starting loans, in
  their order, each bound to a list with exactly one balance per simulated year; and the
  result is the same when every contribution of a participant who has no starting loan
  is removed: such contributions accrue to no balance.
\<close>

theorem loan_evolution_shape:
  assumes "distinct (map fst loans0)"
  shows "\<exists>ev. calculate_loan_evolution loans0 cs ys rent start_m pay mode end_y change_y factor = Inr ev
     \<and> map fst ev = map fst loans0
     \<and> (\<forall>(k, h) \<in> set ev. length h = length ys)
     \<and> calculate_loan_evolution loans0 (filter (\<lambda>c. name c \<in> set (map fst loans0)) cs) ys rent
          start_m pay mode end_y change_y factor = Inr ev"
proof (cases ys)
  case Nil
  then show ?thesis
    by (auto simp: calculate_loan_evolution_def case_prod_beta)
next
  case (Cons y0 rest)
  let ?ev0 = "map (\<lambda>(person, v). (person, []::real list)) loans0"
  let ?body = "loan_year (contrib_map cs) rent start_m pay mode end_y change_y factor y0"
  let ?body' = "loan_year (contrib_map (filter (\<lambda>c. name c \<in> set (map fst loans0)) cs))
                  rent start_m pay mode end_y change_y factor y0"
  have k0: "map fst ?ev0 = map fst loans0" by (induction loans0) auto
  have l0: "\<forall>(k, h) \<in> set ?ev0. length h = 0" by auto
  obtain ev where ev: "loan_loop ?body (enumerate 0 ys) (loans0, ?ev0) = Inr ev"
    "map fst ev = map fst loans0" "\<forall>(k, h) \<in> set ev. length h = 0 + length (enumerate 0 ys)"
    using loan_loop_shape [of ?body loans0 ?ev0 0 "enumerate 0 ys", OF loan_year_Inr assms k0 l0]
    by blast
  have "loan_loop ?body (enumerate 0 ys) (loans0, ?ev0) = loan_loop ?body' (enumerate 0 ys) (loans0, ?ev0)"
  proof (rule loan_loop_cong [where ks = "map fst loans0"])
    show "\<exists>loans'. ?body iy loans = Inr loans' \<and> map fst loans' = map fst loans" for iy loans
      by (rule loan_year_Inr)
    show "?body iy loans = ?body' iy loans" if "map fst loans = map fst loans0" for iy loans
      by (rule loan_year_cong) (simp add: that contrib_map_filter)
  qed simp
  with ev show ?thesis
    by (simp add: calculate_loan_evolution_def Cons [symmetric] Let_def) (simp add: Cons)
qed

theorem loan_evolution_shape_witness:
  "distinct (map fst demo_loans)
   \<and> calculate_loan_evolution demo_loans
        (demo_contribs @ [\<lparr>name = ''Laps1'', monthly_amount = 150\<rparr>]) [2026, 2027]
        (Some (demo_rental\<lparr>include := True\<rparr>)) 7 (Some [0, 1850]) ''loan'' None None 1
      = Inr [(''Mart'', [1100, 10170]), (''Kerli'', [-600, 6480])]"
proof -
  have d: "distinct (map fst demo_loans)" by (simp add: demo_loans_def)
  have v: "calculate_loan_evolution demo_loans demo_contribs [2026, 2027]
        (Some (demo_rental\<lparr>include := True\<rparr>)) 7 (Some [0, 1850]) ''loan'' None None 1
      = Inr [(''Mart'', [1100, 10170]), (''Kerli'', [-600, 6480])]"
    by (simp add: calculate_loan_evolution_def demo_loans_def demo_contribs_def demo_rental_def
        loan_year_def contrib_map_def add_contributions_def loan_monthly_def
        subtract_rental_repayment_def adjust_def subtract_loan_repayment_def truediv_def
        store_snapshot_def)
  have f: "filter (\<lambda>c. name c \<in> set (map fst demo_loans))
             (demo_contribs @ [\<lparr>name = ''Laps1'', monthly_amount = 150\<rparr>]) = demo_contribs"
    by (simp add: demo_loans_def demo_contribs_def)
  from loan_evolution_shape [OF d, of "demo_contribs @ [\<lparr>name = ''Laps1'', monthly_amount = 150\<rparr>]" "[2026, 2027]"
      "Some (demo_rental\<lparr>include := True\<rparr>)" 7 "Some [0, 1850]" "''loan''" None None 1]
  show ?thesis unfolding f v using d by auto
qed

end
